theory Spec2Isabelle
  imports Complex_Main
begin

section \<open>Crash Street: the round engine of the game server\<close>

text \<open>
  A shallow embedding of the server of the crash game: the balance ledger
  (\<^verbatim>\<open>updateUserBalance\<close>, \<^verbatim>\<open>findUserById\<close>), the class
  \<^verbatim>\<open>GameRoom\<close> and the socket handlers \<^verbatim>\<open>place_bet\<close> and
  \<^verbatim>\<open>cash_out\<close>.

  Conventions of the embedding.
  \<^item> JavaScript numbers are modelled as \<open>real\<close>. The sum in
    \<^verbatim>\<open>updateUserBalance\<close> and the product in \<^verbatim>\<open>cash_out\<close> are rounded as
    the sum and the product of doubles are (\<open>num_add\<close>, \<open>num_mul\<close>: both operands
    and the result are rounded to 53 binary digits, to nearest, ties to even;
    overflow and underflow are not modelled). The growth function and the crash
    point are computed over the reals. The one place where the source can produce
    \<^verbatim>\<open>NaN\<close> (\<^verbatim>\<open>parseInt\<close> in \<^verbatim>\<open>getCrashPoint\<close>) is modelled with \<open>None\<close>.
    The amount of a bet is a number.
  \<^item> Timestamps (\<^verbatim>\<open>Date.now()\<close>) are integers, in milliseconds.
  \<^item> The library functions \<^verbatim>\<open>CryptoJS.SHA256(m).toString()\<close> and
    \<^verbatim>\<open>CryptoJS.HmacSHA256(m, k).toString()\<close> are parameters \<open>SHA256\<close> and
    \<open>HmacSHA256\<close> of the definitions that call them; the values drawn from
    \<^verbatim>\<open>Math.random()\<close> are a parameter \<open>rnd\<close> (the i-th draw of the call).
  \<^item> A handler runs from its first statement to its last without another callback
    in between (one room, one sequential timeline).
  \<^item> The ledger is the table of balances and the log of transactions; a balance
    update is rejected when the user is missing or the balance would go below 0.
    Errors of the database driver are not modelled.
  \<^item> The handler \<^verbatim>\<open>join_room\<close> only reads the room and is left out.
\<close>

subsection \<open>Strings and numbers of the host language\<close>

definition digit_char :: "nat \<Rightarrow> char" where
  "digit_char n = ''0123456789'' ! n"

text \<open>The decimal numeral of a natural number, as a template literal prints it.\<close>

function string_of_nat :: "nat \<Rightarrow> string" where
  "string_of_nat n =
     (if n < 10 then [digit_char n]
      else string_of_nat (n div 10) @ [digit_char (n mod 10)])"
  by pat_completeness auto
termination
  by (relation "measure id") auto

declare string_of_nat.simps [simp del]

definition substring :: "nat \<Rightarrow> nat \<Rightarrow> string \<Rightarrow> string" where
  "substring i j s = take (j - i) (drop i s)"

definition charAt :: "string \<Rightarrow> nat \<Rightarrow> string" where
  "charAt s i = (if i < length s then [s ! i] else [])"

text \<open>The value of a hexadecimal digit, of either case.\<close>

definition hexval :: "char \<Rightarrow> nat option" where
  "hexval c =
     (let n = of_char c :: nat in
      if 48 \<le> n \<and> n \<le> 57 then Some (n - 48)
      else if 97 \<le> n \<and> n \<le> 102 then Some (n - 87)
      else if 65 \<le> n \<and> n \<le> 70 then Some (n - 55)
      else None)"

text \<open>
  \<^verbatim>\<open>parseInt(s, 16)\<close> reads the longest prefix of hexadecimal digits;
  \<open>parse_digits\<close> is that loop, with the value read so far.
\<close>

fun parse_digits :: "nat \<Rightarrow> string \<Rightarrow> nat" where
  "parse_digits acc [] = acc"
| "parse_digits acc (c # cs) =
     (case hexval c of None \<Rightarrow> acc | Some v \<Rightarrow> parse_digits (16 * acc + v) cs)"

definition is_space :: "char \<Rightarrow> bool" where
  "is_space c = (c \<in> set [CHR '' '', CHR 0x09, CHR 0x0A, CHR 0x0B, CHR 0x0C, CHR 0x0D])"

definition strip_0x :: "string \<Rightarrow> string" where
  "strip_0x s =
     (case s of
        c0 # c1 # rest \<Rightarrow>
          if c0 = CHR ''0'' \<and> (c1 = CHR ''x'' \<or> c1 = CHR ''X'') then rest else s
      | _ \<Rightarrow> s)"

text \<open>
  \<^verbatim>\<open>parseInt(s, 16)\<close>: leading white space, a sign and a prefix \<^verbatim>\<open>0x\<close> are
  skipped; \<open>None\<close> is \<^verbatim>\<open>NaN\<close>, the result when no digit follows.
\<close>

definition parseInt16 :: "string \<Rightarrow> int option" where
  "parseInt16 s =
     (let s1 = dropWhile is_space s;
          neg = (s1 \<noteq> [] \<and> hd s1 = CHR ''-'');
          s2 = (if s1 \<noteq> [] \<and> (hd s1 = CHR ''-'' \<or> hd s1 = CHR ''+'') then tl s1 else s1);
          s3 = strip_0x s2
      in case s3 of
           [] \<Rightarrow> None
         | c # cs \<Rightarrow>
             (case hexval c of
                None \<Rightarrow> None
              | Some v \<Rightarrow>
                  Some (if neg then - int (parse_digits 0 s3) else int (parse_digits 0 s3))))"

text \<open>
  The number that \<^verbatim>\<open>parseFloat(x.toFixed(2))\<close> denotes: the multiple of 1/100
  nearest to \<open>x\<close>, the larger one of two equally near; the sign is treated apart, and
  from \<open>10^21\<close> on \<^verbatim>\<open>toFixed\<close> prints the number itself.
\<close>

definition toFixed2 :: "real \<Rightarrow> real" where
  "toFixed2 x =
     (if 10 ^ 21 \<le> \<bar>x\<bar> then x
      else if x < 0 then - (real_of_int \<lfloor>(- x) * 100 + 1 / 2\<rfloor> / 100)
      else real_of_int \<lfloor>x * 100 + 1 / 2\<rfloor> / 100)"

definition Math_E :: real where
  "Math_E = exp 1"

definition Math_pow :: "real \<Rightarrow> real \<Rightarrow> real" where
  "Math_pow b x = b powr x"

text \<open>
  Doubles. A number is rounded to a double by scaling its magnitude into
  \<open>[2^52, 2^53)\<close> (\<open>sig_up\<close> doubles it, \<open>sig_down\<close> halves it, both count the
  steps), rounding to the nearest integer, the even one of two equally near, and
  scaling back. The range of the exponent is not bounded.
\<close>

definition round_ties_even :: "real \<Rightarrow> int" where
  "round_ties_even m =
     (let f = \<lfloor>m\<rfloor>; r = m - real_of_int f
      in if r < 1 / 2 then f
         else if 1 / 2 < r then f + 1
         else if even f then f else f + 1)"

function sig_up :: "real \<Rightarrow> nat \<Rightarrow> real \<times> nat" where
  "sig_up m k = (if 0 < m \<and> m < 2 ^ 52 then sig_up (2 * m) (Suc k) else (m, k))"
  by pat_completeness auto
termination
proof (relation "measure (\<lambda>(m, k). nat \<lfloor>2 ^ 52 / m\<rfloor>)")
  show "wf (measure (\<lambda>(m, k). nat \<lfloor>2 ^ 52 / m\<rfloor>))" by simp
next
  fix m :: real and k :: nat
  assume a: "0 < m \<and> m < 2 ^ 52"
  define q where "q = 2 ^ 52 / m"
  from a have q: "1 < q" by (simp add: q_def)
  have "q / 2 < real_of_int \<lfloor>q\<rfloor>"
  proof (cases "q < 2")
    case True
    with q have "\<lfloor>q\<rfloor> = 1" by (intro floor_unique) simp_all
    with True show ?thesis by simp
  next
    case False
    have "q - 1 < real_of_int \<lfloor>q\<rfloor>" by linarith
    with False show ?thesis by linarith
  qed
  then have "\<lfloor>q / 2\<rfloor> < \<lfloor>q\<rfloor>" by (simp add: floor_less_iff)
  moreover have "2 ^ 52 / (2 * m) = q / 2" by (simp add: q_def)
  moreover from q have "0 < \<lfloor>q\<rfloor>" by simp
  ultimately show "((2 * m, Suc k), (m, k)) \<in> measure (\<lambda>(m, k). nat \<lfloor>2 ^ 52 / m\<rfloor>)"
    by (simp add: q_def)
qed

function sig_down :: "real \<Rightarrow> nat \<Rightarrow> real \<times> nat" where
  "sig_down m k = (if 2 ^ 53 \<le> m then sig_down (m / 2) (Suc k) else (m, k))"
  by pat_completeness auto
termination
proof (relation "measure (\<lambda>(m, k). nat \<lfloor>m\<rfloor>)")
  show "wf (measure (\<lambda>(m, k). nat \<lfloor>m\<rfloor>))" by simp
next
  fix m :: real and k :: nat
  assume a: "2 ^ 53 \<le> m"
  from a have "2 \<le> m" by simp
  moreover have "m - 1 < real_of_int \<lfloor>m\<rfloor>" by linarith
  ultimately have "m / 2 < real_of_int \<lfloor>m\<rfloor>" by linarith
  then have "\<lfloor>m / 2\<rfloor> < \<lfloor>m\<rfloor>" by (simp add: floor_less_iff)
  moreover from a have "0 < \<lfloor>m\<rfloor>" by simp
  ultimately show "((m / 2, Suc k), (m, k)) \<in> measure (\<lambda>(m, k). nat \<lfloor>m\<rfloor>)"
    by simp
qed

declare sig_up.simps [simp del] sig_down.simps [simp del]

definition magnitude64 :: "real \<Rightarrow> real" where
  "magnitude64 a =
     (if a < 2 ^ 52
      then (case sig_up a 0 of (m, k) \<Rightarrow> real_of_int (round_ties_even m) / 2 ^ k)
      else (case sig_down a 0 of (m, k) \<Rightarrow> real_of_int (round_ties_even m) * 2 ^ k))"

definition binary64 :: "real \<Rightarrow> real" where
  "binary64 x = (if x = 0 then 0 else if x < 0 then - magnitude64 (- x) else magnitude64 x)"

text \<open>The operators \<^verbatim>\<open>+\<close> and \<^verbatim>\<open>*\<close> on the doubles that stand for two numbers.\<close>

definition num_add :: "real \<Rightarrow> real \<Rightarrow> real" where
  "num_add x y = binary64 (binary64 x + binary64 y)"

definition num_mul :: "real \<Rightarrow> real \<Rightarrow> real" where
  "num_mul x y = binary64 (binary64 x * binary64 y)"

text \<open>Comparisons with a number that may be \<^verbatim>\<open>NaN\<close>: false when it is.\<close>

definition num_ge :: "real \<Rightarrow> real option \<Rightarrow> bool" where
  "num_ge x y = (case y of None \<Rightarrow> False | Some c \<Rightarrow> c \<le> x)"

definition num_gt :: "real \<Rightarrow> real option \<Rightarrow> bool" where
  "num_gt x y = (case y of None \<Rightarrow> False | Some c \<Rightarrow> c < x)"

subsection \<open>The ledger\<close>

type_synonym userId = nat

text \<open>
  The tables \<^verbatim>\<open>users\<close> (its column \<^verbatim>\<open>balance\<close>, by user id) and
  \<^verbatim>\<open>transactions\<close> (user id, type, amount, external id).
\<close>

record database =
  users :: "userId \<rightharpoonup> real"
  transactions :: "(userId \<times> string \<times> real \<times> string) list"

definition findUserById :: "database \<Rightarrow> userId \<Rightarrow> real option" where
  "findUserById d uid = users d uid"

text \<open>
  \<^verbatim>\<open>updateUserBalance\<close>: the promise rejects with \<open>Inl\<close> of the error message
  (after \<^verbatim>\<open>ROLLBACK\<close>, so the tables are as before) or resolves with the new balance.
\<close>

definition updateUserBalance ::
  "database \<Rightarrow> userId \<Rightarrow> real \<Rightarrow> string \<Rightarrow> string \<Rightarrow> string + (real \<times> database)" where
  "updateUserBalance d uid amt type externalId =
     (case users d uid of
        None \<Rightarrow> Inl ''User not found''
      | Some balance \<Rightarrow>
          (let newBalance = num_add balance amt in
           if newBalance < 0 then Inl ''Insufficient funds''
           else Inr (newBalance,
                  d\<lparr>users := (users d)(uid \<mapsto> newBalance),
                    transactions := transactions d @ [(uid, type, \<bar>amt\<bar>, externalId)]\<rparr>)))"

subsection \<open>The room\<close>

record bet =
  amount :: real
  cashedOut :: bool
  winAmount :: real

record GameRoom =
  ticker :: string
  lambda :: real
  roomName :: string
  isRunning :: bool
  multiplier :: real
  startTime :: int
  crashPoint :: "real option"
  bets :: "userId \<rightharpoonup> bet"
  serverSeed :: string
  serverSeedHash :: string
  nonce :: nat

text \<open>What the server emits, to the room or to the socket of the user.\<close>

datatype emit =
    Game_start string nat string int
  | Tick real
  | Crash "real option" string
  | Bet_error string
  | Bet_success real
  | Balance_update real
  | Error string
  | Cash_out_success real real

definition seed_chars :: string where
  "seed_chars = ''abcdef0123456789''"

definition rotateSeed :: "(string \<Rightarrow> string) \<Rightarrow> (nat \<Rightarrow> real) \<Rightarrow> GameRoom \<Rightarrow> GameRoom" where
  "rotateSeed SHA256 rnd g =
     (let result =
            foldl (\<lambda>result i.
                     result @ charAt seed_chars (nat \<lfloor>rnd i * real (length seed_chars)\<rfloor>))
              [] [0 ..< 64]
      in g\<lparr>serverSeed := result, serverSeedHash := SHA256 result, nonce := nonce g + 1\<rparr>)"

text \<open>
  \<^verbatim>\<open>getCrashPoint\<close>, as a function of the two fields it reads.
  \<open>None\<close> is \<^verbatim>\<open>NaN\<close>: \<^verbatim>\<open>NaN % 13 === 0\<close> is false, and every later
  operation on \<^verbatim>\<open>NaN\<close> gives \<^verbatim>\<open>NaN\<close>.
\<close>

definition getCrashPoint ::
  "(string \<Rightarrow> string \<Rightarrow> string) \<Rightarrow> string \<Rightarrow> nat \<Rightarrow> real option" where
  "getCrashPoint HmacSHA256 seed n =
     (let combo = seed @ '':'' @ string_of_nat n;
          hash = HmacSHA256 combo seed
      in if (case parseInt16 (substring 0 13 hash) of
               None \<Rightarrow> False | Some v \<Rightarrow> v mod 13 = 0)
         then Some 1.00
         else (case parseInt16 (substring 0 8 hash) of
                 None \<Rightarrow> None
               | Some h \<Rightarrow>
                   (let e = (2::real) ^ 32;
                        result = real_of_int \<lfloor>(100 * 0.99) / (1 - (real_of_int h / e))\<rfloor> / 100
                    in Some (max 1.00 result))))"

text \<open>
  \<^verbatim>\<open>startGame\<close>, called at time \<open>now\<close>. The third component tells whether the
  timeout that calls \<^verbatim>\<open>runGameLoop\<close> six seconds later has been set.
\<close>

definition startGame ::
  "(string \<Rightarrow> string \<Rightarrow> string) \<Rightarrow> (string \<Rightarrow> string) \<Rightarrow> int \<Rightarrow> (nat \<Rightarrow> real) \<Rightarrow>
     GameRoom \<Rightarrow> GameRoom \<times> emit list \<times> bool" where
  "startGame HmacSHA256 SHA256 now rnd g =
     (if isRunning g then (g, [], False)
      else
        (let g1 = rotateSeed SHA256 rnd g;
             g2 = g1\<lparr>crashPoint := getCrashPoint HmacSHA256 (serverSeed g1) (nonce g1)\<rparr>;
             g3 = g2\<lparr>multiplier := 1.00, isRunning := True, startTime := now + 6000,
                     bets := Map.empty\<rparr>
         in (g3, [Game_start (ticker g3) (nonce g3) (serverSeedHash g3) (startTime g3)], True)))"

text \<open>The constructor, called at time \<open>now\<close>; it rotates the seed and starts a game.\<close>

definition new_GameRoom ::
  "(string \<Rightarrow> string \<Rightarrow> string) \<Rightarrow> (string \<Rightarrow> string) \<Rightarrow> string \<Rightarrow> real \<Rightarrow> string \<Rightarrow>
     int \<Rightarrow> (nat \<Rightarrow> real) \<Rightarrow> (nat \<Rightarrow> real) \<Rightarrow> GameRoom \<times> emit list \<times> bool" where
  "new_GameRoom HmacSHA256 SHA256 tk lam name now rnd1 rnd2 =
     (let g0 = \<lparr>ticker = tk, lambda = lam, roomName = name, isRunning = False,
                multiplier = 1.00, startTime = 0, crashPoint = Some 0, bets = Map.empty,
                serverSeed = [], serverSeedHash = [], nonce = 0\<rparr>
      in startGame HmacSHA256 SHA256 now rnd2 (rotateSeed SHA256 rnd1 g0))"

text \<open>\<^verbatim>\<open>crashGame\<close>; it also sets the timeout that calls \<^verbatim>\<open>startGame\<close>.\<close>

definition crashGame :: "GameRoom \<Rightarrow> GameRoom \<times> emit list" where
  "crashGame g = (g\<lparr>isRunning := False\<rparr>, [Crash (crashPoint g) (serverSeed g)])"

text \<open>
  The growth function of \<^verbatim>\<open>runGameLoop\<close>: the multiplier that the callback
  stores when \<open>elapsed\<close> seconds have passed, in a room of volatility \<open>lam\<close>.
\<close>

definition growth :: "real \<Rightarrow> real \<Rightarrow> real" where
  "growth lam elapsed =
     (let k = 0.065 * (2.0 / lam);
          M = Math_pow Math_E (k * elapsed * 2.5)
      in max 1.00 (toFixed2 M))"

text \<open>
  The callback that \<^verbatim>\<open>runGameLoop\<close> registers with \<^verbatim>\<open>setInterval\<close>, run at
  time \<open>now\<close>; \<open>loopStart\<close> is the time at which \<^verbatim>\<open>runGameLoop\<close> was called. The
  third component tells whether the interval has been cleared.
\<close>

definition interval_tick :: "int \<Rightarrow> int \<Rightarrow> GameRoom \<Rightarrow> GameRoom \<times> emit list \<times> bool" where
  "interval_tick loopStart now g =
     (let elapsed = real_of_int (now - loopStart) / 1000;
          g1 = g\<lparr>multiplier := growth (lambda g) elapsed\<rparr>
      in if num_ge (multiplier g1) (crashPoint g1)
         then (case crashGame g1 of (g2, out) \<Rightarrow> (g2, out, True))
         else (g1, [Tick (multiplier g1)], False))"

subsection \<open>The socket handlers\<close>

text \<open>
  The message of the error that \<^verbatim>\<open>user.balance\<close> raises when
  \<^verbatim>\<open>findUserById\<close> has found no row.
\<close>

definition type_error :: string where
  "type_error = ''Cannot read properties of undefined (reading 'balance')''"

definition audit_tag :: "string \<Rightarrow> GameRoom \<Rightarrow> string" where
  "audit_tag room game = ''room:'' @ room @ '':nonce:'' @ string_of_nat (nonce game)"

text \<open>
  The handlers, once \<^verbatim>\<open>rooms[room]\<close> has given the room \<open>game\<close>, for the user
  \<open>uid\<close> of the socket. They return the room, the ledger and what the socket is sent.
\<close>

definition place_bet ::
  "GameRoom \<Rightarrow> database \<Rightarrow> userId \<Rightarrow> string \<Rightarrow> real \<Rightarrow> GameRoom \<times> database \<times> emit list" where
  "place_bet game d uid room amt =
     (if multiplier game > 1.0 then (game, d, [Bet_error ''Game already started''])
      else if amt \<le> 0 then (game, d, [Bet_error ''Invalid amount''])
      else
        (case updateUserBalance d uid (- amt) ''bet'' (audit_tag room game) of
           Inl msg \<Rightarrow> (game, d, [Bet_error msg])
         | Inr (newBalance, d') \<Rightarrow>
             (let game' = game\<lparr>bets := (bets game)
                     (uid \<mapsto> \<lparr>amount = amt, cashedOut = False, winAmount = 0\<rparr>)\<rparr>
              in case findUserById d' uid of
                   None \<Rightarrow> (game', d', [Bet_success amt, Bet_error type_error])
                 | Some balance \<Rightarrow> (game', d', [Bet_success amt, Balance_update balance]))))"

definition cash_out ::
  "GameRoom \<Rightarrow> database \<Rightarrow> userId \<Rightarrow> string \<Rightarrow> GameRoom \<times> database \<times> emit list" where
  "cash_out game d uid room =
     (if \<not> isRunning game then (game, d, [Error ''Game not running''])
      else
        (case bets game uid of
           None \<Rightarrow> (game, d, [Error ''No active bet''])
         | Some b \<Rightarrow>
             if cashedOut b then (game, d, [Error ''Already cashed out''])
             else
               (let currentMult = multiplier game in
                if num_gt currentMult (crashPoint game) then (game, d, [Error ''Crashed!''])
                else
                  (let win = real_of_int \<lfloor>num_mul (amount b) currentMult\<rfloor>;
                       game' = game\<lparr>bets := (bets game)
                                 (uid \<mapsto> b\<lparr>cashedOut := True, winAmount := win\<rparr>)\<rparr>
                   in case updateUserBalance d uid win ''win'' (audit_tag room game) of
                        Inl err \<Rightarrow> (game', d, [])
                      | Inr (newBalance, d') \<Rightarrow>
                          (case findUserById d' uid of
                             None \<Rightarrow> (game', d', [Cash_out_success currentMult win])
                           | Some balance \<Rightarrow>
                               (game', d',
                                [Cash_out_success currentMult win, Balance_update balance]))))))"

text \<open>
  The lookup \<^verbatim>\<open>rooms[room]\<close>. The table of rooms is a plain object: besides
  its own keys, the names of the rooms, it answers to the keys that every object
  inherits, with a value that is not a room (a function, or the prototype
  itself). Such a value passes the test \<^verbatim>\<open>!rooms[room]\<close>, and each of the fields
  \<^verbatim>\<open>multiplier\<close>, \<^verbatim>\<open>isRunning\<close>, \<^verbatim>\<open>nonce\<close> and \<^verbatim>\<open>bets\<close> read from it is
  \<^verbatim>\<open>undefined\<close>.
\<close>

datatype lookup = Room GameRoom | Inherited | Undefined

definition inherited_keys :: "string list" where
  "inherited_keys =
     [''constructor'', ''__proto__'', ''hasOwnProperty'', ''isPrototypeOf'',
      ''propertyIsEnumerable'', ''toLocaleString'', ''toString'', ''valueOf'',
      ''__defineGetter__'', ''__defineSetter__'', ''__lookupGetter__'', ''__lookupSetter__'']"

definition rooms_lookup :: "(string \<rightharpoonup> GameRoom) \<Rightarrow> string \<Rightarrow> lookup" where
  "rooms_lookup rooms room =
     (case rooms room of
        Some game \<Rightarrow> Room game
      | None \<Rightarrow> if room \<in> set inherited_keys then Inherited else Undefined)"

text \<open>The message of the error that \<^verbatim>\<open>game.bets.set\<close> raises on such a value.\<close>

definition type_error_set :: string where
  "type_error_set = ''Cannot read properties of undefined (reading 'set')''"

text \<open>
  The handlers with the lookup. An unknown name is ignored. On an inherited key,
  \<^verbatim>\<open>place_bet\<close> passes the test of the multiplier (\<^verbatim>\<open>undefined > 1.0\<close> is
  false), tests the amount, debits the user, and then fails to record the bet;
  \<^verbatim>\<open>cash_out\<close> answers that the game is not running.
\<close>

definition on_place_bet ::
  "(string \<rightharpoonup> GameRoom) \<Rightarrow> database \<Rightarrow> userId \<Rightarrow> string \<Rightarrow> real \<Rightarrow>
     (string \<rightharpoonup> GameRoom) \<times> database \<times> emit list" where
  "on_place_bet rooms d uid room amt =
     (case rooms_lookup rooms room of
        Undefined \<Rightarrow> (rooms, d, [])
      | Inherited \<Rightarrow>
          if amt \<le> 0 then (rooms, d, [Bet_error ''Invalid amount''])
          else
            (case updateUserBalance d uid (- amt) ''bet''
                    (''room:'' @ room @ '':nonce:undefined'') of
               Inl msg \<Rightarrow> (rooms, d, [Bet_error msg])
             | Inr (newBalance, d') \<Rightarrow> (rooms, d', [Bet_error type_error_set]))
      | Room game \<Rightarrow>
          (case place_bet game d uid room amt of
             (game', d', out) \<Rightarrow> (rooms(room \<mapsto> game'), d', out)))"

definition on_cash_out ::
  "(string \<rightharpoonup> GameRoom) \<Rightarrow> database \<Rightarrow> userId \<Rightarrow> string \<Rightarrow>
     (string \<rightharpoonup> GameRoom) \<times> database \<times> emit list" where
  "on_cash_out rooms d uid room =
     (case rooms_lookup rooms room of
        Undefined \<Rightarrow> (rooms, d, [])
      | Inherited \<Rightarrow> (rooms, d, [Error ''Game not running''])
      | Room game \<Rightarrow>
          (case cash_out game d uid room of
             (game', d', out) \<Rightarrow> (rooms(room \<mapsto> game'), d', out)))"

subsection \<open>One room over time\<close>

text \<open>
  The room with the ledger and its timers: the timeout of \<^verbatim>\<open>startGame\<close> that
  calls \<^verbatim>\<open>runGameLoop\<close>, the interval of \<^verbatim>\<open>runGameLoop\<close> (with its
  \<^verbatim>\<open>loopStart\<close>) and the timeout of \<^verbatim>\<open>crashGame\<close> that calls
  \<^verbatim>\<open>startGame\<close>.
\<close>

record world =
  game :: GameRoom
  ledger :: database
  loopTimeout :: bool
  interval :: "int option"
  restartTimeout :: bool

text \<open>
  What happens to a room: a timer fires at a time \<open>now\<close>, or a command of a user
  arrives. A timer that is not set does not fire.
\<close>

datatype input =
    RunGameLoopFires int
  | IntervalFires int
  | StartGameFires int "nat \<Rightarrow> real"
  | PlaceBet userId real
  | CashOut userId

fun step ::
  "(string \<Rightarrow> string \<Rightarrow> string) \<Rightarrow> (string \<Rightarrow> string) \<Rightarrow> input \<Rightarrow> world \<Rightarrow>
     world \<times> emit list" where
  "step H S (RunGameLoopFires now) w =
     (if loopTimeout w then (w\<lparr>loopTimeout := False, interval := Some now\<rparr>, [])
      else (w, []))"
| "step H S (IntervalFires now) w =
     (case interval w of
        None \<Rightarrow> (w, [])
      | Some loopStart \<Rightarrow>
          (case interval_tick loopStart now (game w) of
             (g, out, cleared) \<Rightarrow>
               (w\<lparr>game := g,
                  interval := (if cleared then None else Some loopStart),
                  restartTimeout := (restartTimeout w \<or> cleared)\<rparr>, out)))"
| "step H S (StartGameFires now rnd) w =
     (if restartTimeout w
      then (case startGame H S now rnd (game w) of
              (g, out, started) \<Rightarrow>
                (w\<lparr>game := g, restartTimeout := False,
                   loopTimeout := (loopTimeout w \<or> started)\<rparr>, out))
      else (w, []))"
| "step H S (PlaceBet uid amt) w =
     (case place_bet (game w) (ledger w) uid (roomName (game w)) amt of
        (g, d, out) \<Rightarrow> (w\<lparr>game := g, ledger := d\<rparr>, out))"
| "step H S (CashOut uid) w =
     (case cash_out (game w) (ledger w) uid (roomName (game w)) of
        (g, d, out) \<Rightarrow> (w\<lparr>game := g, ledger := d\<rparr>, out))"

fun run ::
  "(string \<Rightarrow> string \<Rightarrow> string) \<Rightarrow> (string \<Rightarrow> string) \<Rightarrow> input list \<Rightarrow> world \<Rightarrow>
     world \<times> emit list" where
  "run H S [] w = (w, [])"
| "run H S (i # ins) w =
     (case step H S i w of
        (w1, out1) \<Rightarrow> (case run H S ins w1 of (w2, out2) \<Rightarrow> (w2, out1 @ out2)))"

text \<open>The room as the server creates it at time \<open>now\<close>, with the ledger \<open>d\<close>.\<close>

definition new_world ::
  "(string \<Rightarrow> string \<Rightarrow> string) \<Rightarrow> (string \<Rightarrow> string) \<Rightarrow> string \<Rightarrow> real \<Rightarrow> string \<Rightarrow>
     int \<Rightarrow> (nat \<Rightarrow> real) \<Rightarrow> (nat \<Rightarrow> real) \<Rightarrow> database \<Rightarrow> world \<times> emit list" where
  "new_world H S tk lam name now rnd1 rnd2 d =
     (case new_GameRoom H S tk lam name now rnd1 rnd2 of
        (g, out, started) \<Rightarrow>
          (\<lparr>game = g, ledger = d, loopTimeout = started, interval = None,
            restartTimeout = False\<rparr>, out))"

text \<open>
  The states a room can be in: created by the server, then changed by its timers
  and its commands; the ledger is shared with the rest of the server and changes
  between two commands.
\<close>

inductive reachable ::
  "(string \<Rightarrow> string \<Rightarrow> string) \<Rightarrow> (string \<Rightarrow> string) \<Rightarrow> world \<Rightarrow> bool"
  for H :: "string \<Rightarrow> string \<Rightarrow> string" and S :: "string \<Rightarrow> string" where
  created: "reachable H S (fst (new_world H S tk lam name now rnd1 rnd2 d))"
| stepped: "reachable H S w \<Longrightarrow> reachable H S (fst (step H S i w))"
| ledger_changed: "reachable H S w \<Longrightarrow> reachable H S (w\<lparr>ledger := d\<rparr>)"

text \<open>
  The phases of the specification, read off the state: the flag \<^verbatim>\<open>isRunning\<close> is
  set from \<^verbatim>\<open>startGame\<close> to \<^verbatim>\<open>crashGame\<close>, and the interval lives from
  \<^verbatim>\<open>runGameLoop\<close> to \<^verbatim>\<open>crashGame\<close>.
\<close>

datatype phase = BETTING | RUNNING | CRASHED

definition phase_of :: "world \<Rightarrow> phase" where
  "phase_of w =
     (if \<not> isRunning (game w) then CRASHED
      else if interval w = None then BETTING
      else RUNNING)"

text \<open>
  The timers of a room as the code sets them: while \<open>isRunning\<close> is set, either
  the timeout of \<open>runGameLoop\<close> is pending or the interval is live; after the
  crash, only the timeout of \<open>startGame\<close> is pending.
\<close>

definition timers_ok :: "world \<Rightarrow> bool" where
  "timers_ok w =
     (if isRunning (game w)
      then \<not> restartTimeout w \<and> (loopTimeout w \<longleftrightarrow> interval w = None)
      else restartTimeout w \<and> \<not> loopTimeout w \<and> interval w = None)"

definition is_start :: "input \<Rightarrow> bool" where
  "is_start i = (case i of StartGameFires now rnd \<Rightarrow> True | _ \<Rightarrow> False)"


subsection \<open>The stream of events, as a client audits it\<close>

text \<open>
  A client keeps the nonce and the commitment hash of the last round-start event.
  \<open>commitments_open\<close> checks every crash event against the hash kept:
  the seed it discloses must hash to it. \<open>crashes_recomputable\<close> checks that the
  crash point of every crash event is the one derived from the seed it discloses
  and the nonce kept.
\<close>

fun last_start :: "(nat \<times> string) option \<Rightarrow> emit list \<Rightarrow> (nat \<times> string) option" where
  "last_start a [] = a"
| "last_start a (Game_start tk n h st # es) = last_start (Some (n, h)) es"
| "last_start a (e # es) = last_start a es"

fun commitments_open ::
  "(string \<Rightarrow> string) \<Rightarrow> (nat \<times> string) option \<Rightarrow> emit list \<Rightarrow> bool" where
  "commitments_open S a [] = True"
| "commitments_open S a (Game_start tk n h st # es) = commitments_open S (Some (n, h)) es"
| "commitments_open S a (Crash c seed # es) =
     ((case a of None \<Rightarrow> False | Some (n, h) \<Rightarrow> S seed = h) \<and> commitments_open S a es)"
| "commitments_open S a (e # es) = commitments_open S a es"

fun crashes_recomputable ::
  "(string \<Rightarrow> string \<Rightarrow> string) \<Rightarrow> (nat \<times> string) option \<Rightarrow> emit list \<Rightarrow> bool" where
  "crashes_recomputable H a [] = True"
| "crashes_recomputable H a (Game_start tk n h st # es) = crashes_recomputable H (Some (n, h)) es"
| "crashes_recomputable H a (Crash c seed # es) =
     ((case a of None \<Rightarrow> False | Some (n, h) \<Rightarrow> c = getCrashPoint H seed n) \<and>
      crashes_recomputable H a es)"
| "crashes_recomputable H a (e # es) = crashes_recomputable H a es"

text \<open>The events that neither start nor end a round.\<close>

definition quiet :: "emit \<Rightarrow> bool" where
  "quiet e = (case e of Game_start tk n h st \<Rightarrow> False | Crash c seed \<Rightarrow> False | _ \<Rightarrow> True)"

text \<open>
  What an auditing client relies on, as a property of the room: \<open>a\<close> is the nonce
  and the hash of the last round-start event, the hash is that of the seed of the
  room, and the crash point of the room is the one derived from its seed and nonce.
\<close>

definition committed ::
  "(string \<Rightarrow> string \<Rightarrow> string) \<Rightarrow> (string \<Rightarrow> string) \<Rightarrow> (nat \<times> string) option \<Rightarrow>
     GameRoom \<Rightarrow> bool" where
  "committed H S a g =
     (a = Some (nonce g, serverSeedHash g) \<and> serverSeedHash g = S (serverSeed g) \<and>
      crashPoint g = getCrashPoint H (serverSeed g) (nonce g))"

subsection \<open>The wording of the specification\<close>

text \<open>
  The crash point as the specification derives it from the digest: the first 13
  and the first 8 hexadecimal characters, read as numbers in positional notation.
\<close>

definition hex_digits :: string where
  "hex_digits = ''0123456789abcdef''"

definition digit_val :: "char \<Rightarrow> nat" where
  "digit_val c = length (takeWhile (\<lambda>x. x \<noteq> c) hex_digits)"

fun hex_number :: "string \<Rightarrow> nat" where
  "hex_number [] = 0"
| "hex_number (c # cs) = digit_val c * 16 ^ length cs + hex_number cs"

definition hex_digest :: "string \<Rightarrow> bool" where
  "hex_digest s = (length s = 64 \<and> list_all (\<lambda>c. c \<in> set hex_digits) s)"

definition spec_crashPoint :: "string \<Rightarrow> real" where
  "spec_crashPoint digest =
     (if hex_number (take 13 digest) mod 13 = 0 then 1.00
      else max 1.00
             (real_of_int \<lfloor>100 * 0.99 / (1 - real (hex_number (take 8 digest)) / 2 ^ 32)\<rfloor>
                / 100))"

text \<open>The number that a string of decimal digits denotes.\<close>

definition decimal_value :: "string \<Rightarrow> nat" where
  "decimal_value s = foldl (\<lambda>a c. 10 * a + (of_char c - 48)) 0 s"

text \<open>The two readings of \<open>round2\<close>: cutting after two decimals, and rounding to them.\<close>

definition truncate2 :: "real \<Rightarrow> real" where
  "truncate2 x = real_of_int \<lfloor>x * 100\<rfloor> / 100"

definition round2 :: "real \<Rightarrow> real" where
  "round2 x = real_of_int (round (x * 100)) / 100"

subsection \<open>A room of the server, for examples\<close>

text \<open>
  The room ETHRX (volatility 1.0) with one user of balance 1000. The random draws
  are all 0, or all 1/2, which gives the seeds \<open>demo_seed\<close> and \<open>long_seed\<close>. The
  keyed hash of the example gives, for the message and the key of the second
  round of either seed, a digest with the crash point 1.01 or 1.98, and for
  everything else a digest with the crash point 1.00.
\<close>

definition demo_seed :: string where
  "demo_seed = ''aaaaaaaaaaaaaaaaaaaaaaaaaaaaaaaaaaaaaaaaaaaaaaaaaaaaaaaaaaaaaaaa''"

definition long_seed :: string where
  "long_seed = ''2222222222222222222222222222222222222222222222222222222222222222''"

definition H_demo :: "string \<Rightarrow> string \<Rightarrow> string" where
  "H_demo m k =
     (if m = demo_seed @ '':2'' \<and> k = demo_seed
      then ''0600000000000000000000000000000000000000000000000000000000000000''
      else if m = long_seed @ '':2'' \<and> k = long_seed
      then ''8000000000000000000000000000000000000000000000000000000000000000''
      else ''0000000000000000000000000000000000000000000000000000000000000000'')"

definition S_demo :: "string \<Rightarrow> string" where
  "S_demo s = ''sha256:'' @ s"

definition rnd_demo :: "nat \<Rightarrow> real" where
  "rnd_demo i = 0"


definition demo_ledger :: database where
  "demo_ledger = \<lparr>users = [1 \<mapsto> 1000], transactions = []\<rparr>"

definition demo_room :: GameRoom where
  "demo_room =
     \<lparr>ticker = ''$ETHRX'', lambda = 1, roomName = ''ETHRX'', isRunning = True,
      multiplier = 1, startTime = 6000, crashPoint = Some 1.01, bets = Map.empty,
      serverSeed = demo_seed, serverSeedHash = S_demo demo_seed, nonce = 2\<rparr>"

definition demo_wager :: bet where
  "demo_wager = \<lparr>amount = 100, cashedOut = False, winAmount = 0\<rparr>"

text \<open>The room just created; then with a bet of 100; then with its loop started.\<close>

definition demo_created :: world where
  "demo_created =
     fst (new_world H_demo S_demo ''$ETHRX'' 1 ''ETHRX'' 0 rnd_demo rnd_demo demo_ledger)"

definition demo_bet :: world where
  "demo_bet = fst (step H_demo S_demo (PlaceBet 1 100) demo_created)"

definition demo_running :: world where
  "demo_running = fst (step H_demo S_demo (RunGameLoopFires 6000) demo_bet)"

text \<open>The bet cashed out before the first sample, and the crash at the first sample.\<close>

definition demo_cashed :: world where
  "demo_cashed = fst (step H_demo S_demo (CashOut 1) demo_running)"

definition demo_crashed :: world where
  "demo_crashed = fst (step H_demo S_demo (IntervalFires 6050) demo_cashed)"

text \<open>The crash at the first sample with the bet still open.\<close>

definition demo_lost :: world where
  "demo_lost = fst (step H_demo S_demo (IntervalFires 6050) demo_running)"

text \<open>The loop started with no bet placed.\<close>

definition demo_late :: world where
  "demo_late = fst (step H_demo S_demo (RunGameLoopFires 6000) demo_created)"

text \<open>The loop started with the bet open, and the row of the user gone from the ledger.\<close>

definition demo_unpaid :: world where
  "demo_unpaid = demo_running\<lparr>ledger := \<lparr>users = Map.empty, transactions = []\<rparr>\<rparr>"




text \<open>A table of rooms with the room of the example, the bet of 100 placed.\<close>

definition demo_rooms :: "string \<rightharpoonup> GameRoom" where
  "demo_rooms = [''ETHRX'' \<mapsto> game demo_bet]"


section \<open>Doubles\<close>

lemma sig_up_steps:
  "0 < m \<Longrightarrow> 2 ^ 52 \<le> m * 2 ^ n \<Longrightarrow> m * 2 ^ n < 2 ^ 53 \<Longrightarrow> sig_up m k = (m * 2 ^ n, k + n)"
proof (induction n arbitrary: m k)
  case 0
  then show ?case by (simp add: sig_up.simps)
next
  case (Suc n)
  have "(1::real) \<le> 2 ^ n" by simp
  then have "m * 2 \<le> m * 2 * 2 ^ n" using Suc.prems(1) by simp
  with Suc.prems(3) have "m < 2 ^ 52" by simp
  moreover have "sig_up (2 * m) (Suc k) = (2 * m * 2 ^ n, Suc k + n)"
    using Suc.prems by (intro Suc.IH) (simp_all add: mult.commute mult.left_commute)
  ultimately show ?case
    using Suc.prems(1) by (subst sig_up.simps) (simp add: mult.commute mult.left_commute)
qed

text \<open>The double of a positive number, once the scaling is known.\<close>

lemma binary64_pos:
  assumes "0 < x" and "2 ^ 52 \<le> x * 2 ^ n" and "x * 2 ^ n < 2 ^ 53"
  shows "binary64 x = real_of_int (round_ties_even (x * 2 ^ n)) / 2 ^ n"
proof -
  have "(1::real) \<le> 2 ^ n" by simp
  then have "x \<le> x * 2 ^ n" using assms(1) by simp
  with assms(3) have lt: "x < 2 ^ 53" by simp
  show ?thesis
  proof (cases "x < 2 ^ 52")
    case True
    then show ?thesis
      using assms sig_up_steps [OF assms, of 0] by (simp add: binary64_def magnitude64_def)
  next
    case False
    have "n = 0"
    proof (rule ccontr)
      assume "n \<noteq> 0"
      then have "(2::real) \<le> 2 ^ n" by (cases n) simp_all
      then have "x * 2 \<le> x * 2 ^ n" using assms(1) by simp
      with False assms(3) show False by simp
    qed
    with False lt assms show ?thesis
      by (simp add: binary64_def magnitude64_def sig_down.simps)
  qed
qed

lemma binary64_minus: "binary64 (- x) = - binary64 x"
  by (simp add: binary64_def)

lemma round_ties_even_of_int: "round_ties_even (real_of_int i) = i"
  by (simp add: round_ties_even_def)

lemma scale_to_53:
  "0 < n \<Longrightarrow> n < 2 ^ 53 \<Longrightarrow> \<exists>k. 2 ^ 52 \<le> n * 2 ^ k \<and> n * 2 ^ k < (2::nat) ^ 53"
proof (induction "2 ^ 53 - n" arbitrary: n rule: less_induct)
  case less
  show ?case
  proof (cases "2 ^ 52 \<le> n")
    case True
    with less.prems have "2 ^ 52 \<le> n * 2 ^ 0 \<and> n * 2 ^ 0 < (2::nat) ^ 53" by simp
    then show ?thesis by blast
  next
    case False
    with less.prems have "2 ^ 53 - 2 * n < 2 ^ 53 - n" "0 < 2 * n" "2 * n < 2 ^ 53" by simp_all
    from less.hyps [OF this] obtain k
      where "2 ^ 52 \<le> 2 * n * 2 ^ k \<and> 2 * n * 2 ^ k < (2::nat) ^ 53" by blast
    then have "2 ^ 52 \<le> n * 2 ^ Suc k \<and> n * 2 ^ Suc k < (2::nat) ^ 53"
      by (simp add: mult.commute mult.left_commute)
    then show ?thesis by blast
  qed
qed

text \<open>The whole numbers below \<open>2^53\<close> are doubles.\<close>

lemma binary64_of_nat:
  assumes "n < 2 ^ 53"
  shows "binary64 (real n) = real n"
proof (cases "n = 0")
  case True
  then show ?thesis by (simp add: binary64_def)
next
  case False
  with assms obtain k where k: "2 ^ 52 \<le> n * 2 ^ k" "n * 2 ^ k < (2::nat) ^ 53"
    using scale_to_53 [of n] by auto
  have r: "real n * 2 ^ k = real_of_int (int (n * 2 ^ k))" by simp
  from k(1) have "real (2 ^ 52) \<le> real (n * 2 ^ k)" by (simp only: of_nat_le_iff)
  then have lo: "(2::real) ^ 52 \<le> real n * 2 ^ k" by simp
  from k(2) have "real (n * 2 ^ k) < real (2 ^ 53)" by (simp only: of_nat_less_iff)
  then have hi: "real n * 2 ^ k < 2 ^ 53" by simp
  from False have "0 < real n" by simp
  then have "binary64 (real n) = real_of_int (round_ties_even (real n * 2 ^ k)) / 2 ^ k"
    using lo hi by (rule binary64_pos)
  also have "\<dots> = real n"
    unfolding r round_ties_even_of_int by simp
  finally show ?thesis .
qed

lemma binary64_numeral [simp]:
  "(numeral w :: nat) < 2 ^ 53 \<Longrightarrow> binary64 (numeral w) = numeral w"
  using binary64_of_nat [of "numeral w"] by simp

lemma binary64_0_1 [simp]: "binary64 0 = 0" "binary64 1 = 1"
  using binary64_of_nat [of 0] binary64_of_nat [of 1] by simp_all

lemma binary64_neg_numeral [simp]:
  "(numeral w :: nat) < 2 ^ 53 \<Longrightarrow> binary64 (- numeral w) = - numeral w"
  by (simp add: binary64_minus)




text \<open>
  Three bets from a balance of 1000: after 0.08 and 749.63 the balance is a
  double below 250.29, and a bet of 250.29 would take it below 0.
\<close>

lemma binary64_0_08: "binary64 0.08 = 5764607523034235 / 2 ^ 56"
  by (subst binary64_pos [where n = 56]) (simp_all add: round_ties_even_def)

lemma binary64_749_63: "binary64 749.63 = 6593815212237783 / 2 ^ 43"
  by (subst binary64_pos [where n = 43]) (simp_all add: round_ties_even_def)

lemma binary64_250_29: "binary64 250.29 = 8806296490113761 / 2 ^ 45"
  by (subst binary64_pos [where n = 45]) (simp_all add: round_ties_even_def)

lemma num_add_1000_0_08: "num_add 1000 (- 0.08) = 8795389334766223 / 2 ^ 43"
proof -
  have h: "binary64 1000 = 1000" by simp
  have "num_add 1000 (- 0.08) = binary64 (1000 + - (5764607523034235 / 2 ^ 56))"
    unfolding num_add_def binary64_minus binary64_0_08 h ..
  also have "\<dots> = 8795389334766223 / 2 ^ 43"
    by (subst binary64_pos [where n = 43]) (simp_all add: round_ties_even_def)
  finally show ?thesis .
qed

lemma num_add_after_two_bets:
  "num_add (num_add 1000 (- 0.08)) (- 749.63) = 275196765316055 / 2 ^ 40"
proof -
  have h: "binary64 (8795389334766223 / 2 ^ 43) = 8795389334766223 / 2 ^ 43"
    by (subst binary64_pos [where n = 43]) (simp_all add: round_ties_even_def)
  have "num_add (num_add 1000 (- 0.08)) (- 749.63) =
      binary64 (8795389334766223 / 2 ^ 43 + - (6593815212237783 / 2 ^ 43))"
    unfolding num_add_1000_0_08 unfolding num_add_def binary64_minus binary64_749_63 h ..
  also have "\<dots> = 275196765316055 / 2 ^ 40"
    by (subst binary64_pos [where n = 45]) (simp_all add: round_ties_even_def)
  finally show ?thesis .
qed

lemma num_add_third_bet:
  "num_add (num_add (num_add 1000 (- 0.08)) (- 749.63)) (- 250.29) < 0"
proof -
  have h: "binary64 (275196765316055 / 2 ^ 40) = 275196765316055 / 2 ^ 40"
    by (subst binary64_pos [where n = 45]) (simp_all add: round_ties_even_def)
  have "num_add (num_add (num_add 1000 (- 0.08)) (- 749.63)) (- 250.29) =
      binary64 (275196765316055 / 2 ^ 40 + - (8806296490113761 / 2 ^ 45))"
    unfolding num_add_after_two_bets unfolding num_add_def binary64_minus binary64_250_29 h ..
  also have "\<dots> = binary64 (- (1 / 2 ^ 45))" by simp
  also have "\<dots> = - binary64 (1 / 2 ^ 45)" by (rule binary64_minus)
  also have "binary64 (1 / 2 ^ 45) = 1 / 2 ^ 45"
    by (subst binary64_pos [where n = 97]) (simp_all add: round_ties_even_def)
  finally show ?thesis by simp
qed

section \<open>The steps of the handlers\<close>

declare step.simps(4,5) [simp del]

lemma step_PlaceBet [simp]:
  "step H S (PlaceBet uid amt) w =
     (w\<lparr>game := fst (place_bet (game w) (ledger w) uid (roomName (game w)) amt),
        ledger := fst (snd (place_bet (game w) (ledger w) uid (roomName (game w)) amt))\<rparr>,
      snd (snd (place_bet (game w) (ledger w) uid (roomName (game w)) amt)))"
  by (simp add: step.simps case_prod_beta)

lemma step_CashOut [simp]:
  "step H S (CashOut uid) w =
     (w\<lparr>game := fst (cash_out (game w) (ledger w) uid (roomName (game w))),
        ledger := fst (snd (cash_out (game w) (ledger w) uid (roomName (game w))))\<rparr>,
      snd (snd (cash_out (game w) (ledger w) uid (roomName (game w)))))"
  by (simp add: step.simps case_prod_beta)

section \<open>Facts about the example room\<close>

lemma hexval_0_6: "hexval (CHR ''0'') = Some 0" "hexval (CHR ''6'') = Some 6"
  by (simp_all add: hexval_def)

lemma parseInt16_demo13: "parseInt16 ''0600000000000'' = Some 105553116266496"
  by (simp add: parseInt16_def is_space_def strip_0x_def hexval_0_6)

lemma parseInt16_demo8: "parseInt16 ''06000000'' = Some 100663296"
  by (simp add: parseInt16_def is_space_def strip_0x_def hexval_0_6)

lemma string_of_nat_2: "string_of_nat 2 = ''2''"
  by (simp add: string_of_nat.simps digit_char_def)

lemma getCrashPoint_demo: "getCrashPoint H_demo demo_seed 2 = Some 1.01"
  by (simp add: getCrashPoint_def H_demo_def string_of_nat_2 substring_def parseInt16_demo13
      parseInt16_demo8)

lemma hexval_8: "hexval (CHR ''8'') = Some 8"
  by (simp add: hexval_def)

lemma parseInt16_long13: "parseInt16 ''8000000000000'' = Some 2251799813685248"
  by (simp add: parseInt16_def is_space_def strip_0x_def hexval_0_6 hexval_8)

lemma parseInt16_long8: "parseInt16 ''80000000'' = Some 2147483648"
  by (simp add: parseInt16_def is_space_def strip_0x_def hexval_0_6 hexval_8)

lemma seeds_differ: "long_seed \<noteq> demo_seed"
  by (simp add: long_seed_def demo_seed_def)

lemma getCrashPoint_long: "getCrashPoint H_demo long_seed 2 = Some 1.98"
  by (simp add: getCrashPoint_def H_demo_def string_of_nat_2 seeds_differ substring_def
      parseInt16_long13 parseInt16_long8)

lemma draw_demo: "charAt seed_chars (nat \<lfloor>rnd_demo i * real (length seed_chars)\<rfloor>) = ''a''"
  by (simp add: rnd_demo_def charAt_def seed_chars_def)

lemma rotateSeed_demo:
  "rotateSeed S_demo rnd_demo g =
     g\<lparr>serverSeed := demo_seed, serverSeedHash := S_demo demo_seed, nonce := nonce g + 1\<rparr>"
proof -
  have "foldl (\<lambda>result i. result @ ''a'') [] [0 ..< 64] = demo_seed"
    unfolding demo_seed_def by (simp add: eval_nat_numeral)
  then show ?thesis
    by (simp add: rotateSeed_def draw_demo)
qed



lemma getCrashPoint_demo_Suc:
  "getCrashPoint H_demo demo_seed (Suc (Suc 0)) = Some 1.01"
  "getCrashPoint H_demo long_seed (Suc (Suc 0)) = Some 1.98"
  using getCrashPoint_demo getCrashPoint_long by (simp_all add: numeral_2_eq_2)

lemma new_GameRoom_demo:
  "new_GameRoom H_demo S_demo ''$ETHRX'' 1 ''ETHRX'' 0 rnd_demo rnd_demo =
     (demo_room, [Game_start ''$ETHRX'' 2 (S_demo demo_seed) 6000], True)"
  by (simp add: new_GameRoom_def startGame_def rotateSeed_demo getCrashPoint_demo_Suc
      demo_room_def Let_def)

lemma demo_created_eq:
  "demo_created =
     \<lparr>game = demo_room, ledger = demo_ledger, loopTimeout = True, interval = None,
      restartTimeout = False\<rparr>"
  by (simp add: demo_created_def new_world_def new_GameRoom_demo)

lemma audit_tag_demo: "nonce g = 2 \<Longrightarrow> audit_tag ''ETHRX'' g = ''room:ETHRX:nonce:2''"
  by (simp add: audit_tag_def string_of_nat_2)

lemma demo_room_simps:
  "isRunning demo_room" "multiplier demo_room = 1" "crashPoint demo_room = Some 1.01"
  "bets demo_room = Map.empty" "roomName demo_room = ''ETHRX''" "nonce demo_room = 2"
  "lambda demo_room = 1" "serverSeed demo_room = demo_seed" "startTime demo_room = 6000"
  by (simp_all add: demo_room_def)

lemma demo_bet_eq:
  "demo_bet =
     \<lparr>game = demo_room\<lparr>bets := [1 \<mapsto> demo_wager]\<rparr>,
      ledger = \<lparr>users = [1 \<mapsto> 900], transactions = [(1, ''bet'', 100, ''room:ETHRX:nonce:2'')]\<rparr>,
      loopTimeout = True, interval = None, restartTimeout = False\<rparr>"
  by (simp add: demo_bet_def demo_created_eq place_bet_def updateUserBalance_def num_add_def num_mul_def
      findUserById_def audit_tag_demo demo_room_simps demo_ledger_def demo_wager_def)

lemma demo_running_eq:
  "demo_running =
     \<lparr>game = demo_room\<lparr>bets := [1 \<mapsto> demo_wager]\<rparr>,
      ledger = \<lparr>users = [1 \<mapsto> 900], transactions = [(1, ''bet'', 100, ''room:ETHRX:nonce:2'')]\<rparr>,
      loopTimeout = False, interval = Some 6000, restartTimeout = False\<rparr>"
  by (simp add: demo_running_def demo_bet_eq)

lemma demo_late_eq:
  "demo_late =
     \<lparr>game = demo_room, ledger = demo_ledger, loopTimeout = False, interval = Some 6000,
      restartTimeout = False\<rparr>"
  by (simp add: demo_late_def demo_created_eq)

lemma demo_cashed_eq:
  "demo_cashed =
     \<lparr>game = demo_room\<lparr>bets := [1 \<mapsto> demo_wager\<lparr>cashedOut := True, winAmount := 100\<rparr>]\<rparr>,
      ledger = \<lparr>users = [1 \<mapsto> 1000],
         transactions = [(1, ''bet'', 100, ''room:ETHRX:nonce:2''),
                         (1, ''win'', 100, ''room:ETHRX:nonce:2'')]\<rparr>,
      loopTimeout = False, interval = Some 6000, restartTimeout = False\<rparr>"
  by (simp add: demo_cashed_def demo_running_eq cash_out_def updateUserBalance_def num_add_def num_mul_def
      findUserById_def audit_tag_demo demo_room_simps demo_wager_def num_gt_def)

lemma Math_pow_E: "Math_pow Math_E x = exp x"
  by (simp add: Math_pow_def Math_E_def powr_def)

lemma growth_eq: "growth lam el = max 1 (toFixed2 (exp (0.065 * (2 / lam) * el * 2.5)))"
  by (simp add: growth_def Math_pow_E)


lemma exp_13_800: "1.01625 \<le> exp (13 / 800 :: real)" "exp (13 / 800 :: real) \<le> 1.0166"
proof -
  show "1.01625 \<le> exp (13 / 800 :: real)"
    using exp_ge_add_one_self [of "13 / 800 :: real"] by simp
  have "exp (13 / 800 :: real) \<le> 1 + 13 / 800 + (13 / 800)\<^sup>2"
    by (rule exp_bound) simp_all
  also have "\<dots> \<le> 1.0166" by (simp add: power2_eq_square)
  finally show "exp (13 / 800 :: real) \<le> 1.0166" .
qed

lemma toFixed2_exp_13_800: "toFixed2 (exp (13 / 800)) = 1.02"
proof -
  let ?x = "exp (13 / 800 :: real)"
  have f: "\<lfloor>?x * 100 + 1 / 2\<rfloor> = 102"
    using exp_13_800 by (intro floor_unique) simp_all
  have "\<not> 10 ^ 21 \<le> \<bar>?x\<bar>" using exp_13_800 by simp
  moreover have "\<not> ?x < 0" by (simp add: not_less)
  ultimately show ?thesis using f by (simp add: toFixed2_def)
qed

lemma truncate2_exp_13_800: "truncate2 (exp (13 / 800)) = 1.01"
proof -
  have "\<lfloor>exp (13 / 800 :: real) * 100\<rfloor> = 101"
    using exp_13_800 by (intro floor_unique) simp_all
  then show ?thesis by (simp add: truncate2_def)
qed

lemma growth_first_sample: "growth 1 (real_of_int (6050 - 6000) / 1000) = 1.02"
  by (simp add: growth_eq toFixed2_exp_13_800)

lemma interval_tick_demo:
  "lambda g = 1 \<Longrightarrow> crashPoint g = Some 1.01 \<Longrightarrow>
     interval_tick 6000 6050 g =
       (g\<lparr>multiplier := 1.02, isRunning := False\<rparr>, [Crash (Some 1.01) (serverSeed g)], True)"
  using growth_first_sample by (simp add: interval_tick_def crashGame_def num_ge_def)

lemma demo_crashed_eq:
  "demo_crashed =
     \<lparr>game = demo_room\<lparr>bets := [1 \<mapsto> demo_wager\<lparr>cashedOut := True, winAmount := 100\<rparr>],
                       multiplier := 1.02, isRunning := False\<rparr>,
      ledger = \<lparr>users = [1 \<mapsto> 1000],
         transactions = [(1, ''bet'', 100, ''room:ETHRX:nonce:2''),
                         (1, ''win'', 100, ''room:ETHRX:nonce:2'')]\<rparr>,
      loopTimeout = False, interval = None, restartTimeout = True\<rparr>"
  by (simp add: demo_crashed_def demo_cashed_eq interval_tick_demo demo_room_simps)

lemma demo_lost_eq:
  "demo_lost =
     \<lparr>game = demo_room\<lparr>bets := [1 \<mapsto> demo_wager], multiplier := 1.02, isRunning := False\<rparr>,
      ledger = \<lparr>users = [1 \<mapsto> 900], transactions = [(1, ''bet'', 100, ''room:ETHRX:nonce:2'')]\<rparr>,
      loopTimeout = False, interval = None, restartTimeout = True\<rparr>"
  by (simp add: demo_lost_def demo_running_eq interval_tick_demo demo_room_simps)

lemma reachable_demo:
  "reachable H_demo S_demo demo_created" "reachable H_demo S_demo demo_bet"
  "reachable H_demo S_demo demo_running" "reachable H_demo S_demo demo_cashed"
  "reachable H_demo S_demo demo_crashed" "reachable H_demo S_demo demo_lost"
  "reachable H_demo S_demo demo_late"
  unfolding demo_created_def demo_bet_def demo_running_def demo_cashed_def demo_crashed_def
    demo_lost_def demo_late_def
  by (intro reachable.intros)+

section \<open>The ledger and the handlers\<close>

lemma updateUserBalance_Inr:
  "updateUserBalance d uid amt ty tag = Inr (nb, d') \<longleftrightarrow>
     (\<exists>bal. users d uid = Some bal \<and> 0 \<le> num_add bal amt \<and> nb = num_add bal amt \<and>
        d' = d\<lparr>users := (users d)(uid \<mapsto> num_add bal amt),
               transactions := transactions d @ [(uid, ty, \<bar>amt\<bar>, tag)]\<rparr>)"
  by (auto simp: updateUserBalance_def Let_def split: option.splits)

lemma updateUserBalance_Inl:
  "updateUserBalance d uid amt ty tag = Inl e \<longleftrightarrow>
     (users d uid = None \<and> e = ''User not found'') \<or>
     (\<exists>bal. users d uid = Some bal \<and> num_add bal amt < 0 \<and> e = ''Insufficient funds'')"
  by (auto simp: updateUserBalance_def Let_def split: option.splits)

lemma place_bet_late:
  "1.0 < multiplier g \<Longrightarrow> place_bet g d uid room amt = (g, d, [Bet_error ''Game already started''])"
  by (simp add: place_bet_def)

lemma place_bet_invalid:
  "\<not> 1.0 < multiplier g \<Longrightarrow> amt \<le> 0 \<Longrightarrow>
     place_bet g d uid room amt = (g, d, [Bet_error ''Invalid amount''])"
  by (simp add: place_bet_def)

lemma place_bet_rejected_by_ledger:
  "\<not> 1.0 < multiplier g \<Longrightarrow> 0 < amt \<Longrightarrow>
     updateUserBalance d uid (- amt) ''bet'' (audit_tag room g) = Inl e \<Longrightarrow>
     place_bet g d uid room amt = (g, d, [Bet_error e])"
  by (simp add: place_bet_def)

lemma place_bet_accepted:
  "\<not> 1.0 < multiplier g \<Longrightarrow> 0 < amt \<Longrightarrow> users d uid = Some bal \<Longrightarrow> 0 \<le> num_add bal (- amt) \<Longrightarrow>
     place_bet g d uid room amt =
       (g\<lparr>bets := (bets g)(uid \<mapsto> \<lparr>amount = amt, cashedOut = False, winAmount = 0\<rparr>)\<rparr>,
        d\<lparr>users := (users d)(uid \<mapsto> num_add bal (- amt)),
          transactions := transactions d @ [(uid, ''bet'', amt, audit_tag room g)]\<rparr>,
        [Bet_success amt, Balance_update (num_add bal (- amt))])"
  by (simp add: place_bet_def updateUserBalance_def findUserById_def Let_def)

text \<open>The four outcomes of \<open>place_bet\<close>, by the checks in their order.\<close>

lemma place_bet_cases:
  obtains
    (late) "1.0 < multiplier g"
      "place_bet g d uid room amt = (g, d, [Bet_error ''Game already started''])"
  | (invalid) "\<not> 1.0 < multiplier g" "amt \<le> 0"
      "place_bet g d uid room amt = (g, d, [Bet_error ''Invalid amount''])"
  | (refused) e where "\<not> 1.0 < multiplier g" "0 < amt"
      "updateUserBalance d uid (- amt) ''bet'' (audit_tag room g) = Inl e"
      "place_bet g d uid room amt = (g, d, [Bet_error e])"
  | (accepted) bal where "\<not> 1.0 < multiplier g" "0 < amt" "users d uid = Some bal" "0 \<le> num_add bal (- amt)"
      "place_bet g d uid room amt =
         (g\<lparr>bets := (bets g)(uid \<mapsto> \<lparr>amount = amt, cashedOut = False, winAmount = 0\<rparr>)\<rparr>,
          d\<lparr>users := (users d)(uid \<mapsto> num_add bal (- amt)),
            transactions := transactions d @ [(uid, ''bet'', amt, audit_tag room g)]\<rparr>,
          [Bet_success amt, Balance_update (num_add bal (- amt))])"
proof (cases "1.0 < multiplier g")
  case True
  then show ?thesis using late place_bet_late by blast
next
  case notlate: False
  show ?thesis
  proof (cases "amt \<le> 0")
    case True
    then show ?thesis using invalid notlate place_bet_invalid by blast
  next
    case False
    then have pos: "0 < amt" by simp
    show ?thesis
    proof (cases "updateUserBalance d uid (- amt) ''bet'' (audit_tag room g)")
      case (Inl e)
      then show ?thesis using refused notlate pos place_bet_rejected_by_ledger by blast
    next
      case (Inr r)
      obtain nb d' where r: "r = (nb, d')" by (cases r)
      from Inr r obtain bal where "users d uid = Some bal" "0 \<le> num_add bal (- amt)"
        by (auto simp: updateUserBalance_Inr)
      then show ?thesis using accepted [of bal] notlate pos place_bet_accepted by simp
    qed
  qed
qed

lemma cash_out_not_running:
  "\<not> isRunning g \<Longrightarrow> cash_out g d uid room = (g, d, [Error ''Game not running''])"
  by (simp add: cash_out_def)

lemma cash_out_no_bet:
  "isRunning g \<Longrightarrow> bets g uid = None \<Longrightarrow> cash_out g d uid room = (g, d, [Error ''No active bet''])"
  by (simp add: cash_out_def)

lemma cash_out_already:
  "isRunning g \<Longrightarrow> bets g uid = Some b \<Longrightarrow> cashedOut b \<Longrightarrow>
     cash_out g d uid room = (g, d, [Error ''Already cashed out''])"
  by (simp add: cash_out_def)

lemma cash_out_too_late:
  "isRunning g \<Longrightarrow> bets g uid = Some b \<Longrightarrow> \<not> cashedOut b \<Longrightarrow>
     num_gt (multiplier g) (crashPoint g) \<Longrightarrow>
     cash_out g d uid room = (g, d, [Error ''Crashed!''])"
  by (simp add: cash_out_def)

lemma cash_out_unpaid:
  "isRunning g \<Longrightarrow> bets g uid = Some b \<Longrightarrow> \<not> cashedOut b \<Longrightarrow>
     \<not> num_gt (multiplier g) (crashPoint g) \<Longrightarrow>
     updateUserBalance d uid (real_of_int \<lfloor>num_mul (amount b) (multiplier g)\<rfloor>) ''win'' (audit_tag room g)
       = Inl e \<Longrightarrow>
     cash_out g d uid room =
       (g\<lparr>bets := (bets g)(uid \<mapsto>
             b\<lparr>cashedOut := True, winAmount := real_of_int \<lfloor>num_mul (amount b) (multiplier g)\<rfloor>\<rparr>)\<rparr>,
        d, [])"
  by (simp add: cash_out_def Let_def)

lemma cash_out_paid:
  "isRunning g \<Longrightarrow> bets g uid = Some b \<Longrightarrow> \<not> cashedOut b \<Longrightarrow>
     \<not> num_gt (multiplier g) (crashPoint g) \<Longrightarrow>
     users d uid = Some bal \<Longrightarrow> 0 \<le> num_add bal (real_of_int \<lfloor>num_mul (amount b) (multiplier g)\<rfloor>) \<Longrightarrow>
     cash_out g d uid room =
       (g\<lparr>bets := (bets g)(uid \<mapsto>
             b\<lparr>cashedOut := True, winAmount := real_of_int \<lfloor>num_mul (amount b) (multiplier g)\<rfloor>\<rparr>)\<rparr>,
        d\<lparr>users := (users d)(uid \<mapsto> num_add bal (real_of_int \<lfloor>num_mul (amount b) (multiplier g)\<rfloor>)),
          transactions := transactions d @
            [(uid, ''win'', \<bar>real_of_int \<lfloor>num_mul (amount b) (multiplier g)\<rfloor>\<bar>, audit_tag room g)]\<rparr>,
        [Cash_out_success (multiplier g) (real_of_int \<lfloor>num_mul (amount b) (multiplier g)\<rfloor>),
         Balance_update (num_add bal (real_of_int \<lfloor>num_mul (amount b) (multiplier g)\<rfloor>))])"
  by (simp add: cash_out_def updateUserBalance_def findUserById_def Let_def)

text \<open>The outcomes of \<open>cash_out\<close>, by the checks in their order.\<close>

lemma cash_out_cases:
  obtains
    (stopped) "\<not> isRunning g"
      "cash_out g d uid room = (g, d, [Error ''Game not running''])"
  | (no_bet) "isRunning g" "bets g uid = None"
      "cash_out g d uid room = (g, d, [Error ''No active bet''])"
  | (already) b where "isRunning g" "bets g uid = Some b" "cashedOut b"
      "cash_out g d uid room = (g, d, [Error ''Already cashed out''])"
  | (too_late) b where "isRunning g" "bets g uid = Some b" "\<not> cashedOut b"
      "num_gt (multiplier g) (crashPoint g)"
      "cash_out g d uid room = (g, d, [Error ''Crashed!''])"
  | (unpaid) b e where "isRunning g" "bets g uid = Some b" "\<not> cashedOut b"
      "\<not> num_gt (multiplier g) (crashPoint g)"
      "updateUserBalance d uid (real_of_int \<lfloor>num_mul (amount b) (multiplier g)\<rfloor>) ''win''
         (audit_tag room g) = Inl e"
      "cash_out g d uid room =
         (g\<lparr>bets := (bets g)(uid \<mapsto>
               b\<lparr>cashedOut := True, winAmount := real_of_int \<lfloor>num_mul (amount b) (multiplier g)\<rfloor>\<rparr>)\<rparr>,
          d, [])"
  | (paid) b bal where "isRunning g" "bets g uid = Some b" "\<not> cashedOut b"
      "\<not> num_gt (multiplier g) (crashPoint g)" "users d uid = Some bal"
      "cash_out g d uid room =
         (g\<lparr>bets := (bets g)(uid \<mapsto>
               b\<lparr>cashedOut := True, winAmount := real_of_int \<lfloor>num_mul (amount b) (multiplier g)\<rfloor>\<rparr>)\<rparr>,
          d\<lparr>users := (users d)(uid \<mapsto> num_add bal (real_of_int \<lfloor>num_mul (amount b) (multiplier g)\<rfloor>)),
            transactions := transactions d @
              [(uid, ''win'', \<bar>real_of_int \<lfloor>num_mul (amount b) (multiplier g)\<rfloor>\<bar>, audit_tag room g)]\<rparr>,
          [Cash_out_success (multiplier g) (real_of_int \<lfloor>num_mul (amount b) (multiplier g)\<rfloor>),
           Balance_update (num_add bal (real_of_int \<lfloor>num_mul (amount b) (multiplier g)\<rfloor>))])"
proof (cases "isRunning g")
  case False
  then show ?thesis using stopped cash_out_not_running by blast
next
  case run: True
  show ?thesis
  proof (cases "bets g uid")
    case None
    then show ?thesis using no_bet run cash_out_no_bet by blast
  next
    case (Some b)
    show ?thesis
    proof (cases "cashedOut b")
      case True
      then show ?thesis using already run Some cash_out_already by blast
    next
      case fresh: False
      show ?thesis
      proof (cases "num_gt (multiplier g) (crashPoint g)")
        case True
        then show ?thesis using too_late run Some fresh cash_out_too_late by blast
      next
        case intime: False
        let ?win = "real_of_int \<lfloor>num_mul (amount b) (multiplier g)\<rfloor>"
        show ?thesis
        proof (cases "updateUserBalance d uid ?win ''win'' (audit_tag room g)")
          case (Inl e)
          then show ?thesis using unpaid run Some fresh intime cash_out_unpaid by blast
        next
          case (Inr r)
          obtain nb d' where r: "r = (nb, d')" by (cases r)
          from Inr r obtain bal where "users d uid = Some bal" "0 \<le> num_add bal ?win"
            by (auto simp: updateUserBalance_Inr)
          then show ?thesis
            using paid [of b bal] run Some fresh intime cash_out_paid [of g uid b d bal room]
            by blast
        qed
      qed
    qed
  qed
qed

text \<open>Both handlers change nothing of the room but its bets.\<close>

lemma place_bet_room:
  "fst (place_bet g d uid room amt) = g\<lparr>bets := bets (fst (place_bet g d uid room amt))\<rparr>"
  by (rule place_bet_cases [where g = g and d = d and uid = uid and room = room and amt = amt])
     simp_all

lemma cash_out_room:
  "fst (cash_out g d uid room) = g\<lparr>bets := bets (fst (cash_out g d uid room))\<rparr>"
  by (rule cash_out_cases [where g = g and d = d and uid = uid and room = room]) simp_all

section \<open>The multiplier of a room is never below 1\<close>





section \<open>Placing a bet and cashing out\<close>



lemma rooms_lookup_Some: "rooms room = Some g \<Longrightarrow> rooms_lookup rooms room = Room g"
  by (simp add: rooms_lookup_def)

lemma on_place_bet_Room:
  "rooms room = Some g \<Longrightarrow>
     on_place_bet rooms d uid room amt =
       (rooms(room \<mapsto> fst (place_bet g d uid room amt)),
        fst (snd (place_bet g d uid room amt)), snd (snd (place_bet g d uid room amt)))"
  by (simp add: on_place_bet_def rooms_lookup_Some case_prod_beta)

text \<open>Only a bet placed in a room of the server is answered with ``bet success''.\<close>

lemma on_place_bet_success:
  assumes "Bet_success a \<in> set (snd (snd (on_place_bet rooms d uid room amt)))"
  shows "\<exists>g. rooms room = Some g"
proof (cases "rooms_lookup rooms room")
  case (Room g)
  then show ?thesis by (auto simp: rooms_lookup_def split: option.splits if_splits)
next
  case Inherited
  with assms show ?thesis
    by (auto simp: on_place_bet_def split: if_splits sum.splits)
next
  case Undefined
  with assms show ?thesis by (simp add: on_place_bet_def)
qed

text \<open>
  C2 (as amended). There is no check for an existing Bet, and no AlreadyBet
  error: for every user who already holds a Bet in the current round of a room, a
  second bet of that user in the same round that passes the checks of the handler
  (the multiplier is not above 1.0, the amount is positive, the ledger accepts
  the debit) is accepted, a second debit occurs, and the new Bet replaces the
  existing one. The balance of the user is debited exactly once per accepted bet:
  the ledger after an accepted bet is the ledger before with one update of the
  balance by the negated amount and one transaction added.
\<close>

theorem place_bet_replaces_existing_bet:
  "(rooms room = Some g \<and> bets g uid = Some b \<and> \<not> 1.0 < multiplier g \<and> 0 < amt \<and>
    users d uid = Some bal \<and> 0 \<le> num_add bal (- amt) \<longrightarrow>
      on_place_bet rooms d uid room amt =
        (rooms(room \<mapsto>
           g\<lparr>bets := (bets g)(uid \<mapsto> \<lparr>amount = amt, cashedOut = False, winAmount = 0\<rparr>)\<rparr>),
         d\<lparr>users := (users d)(uid \<mapsto> num_add bal (- amt)),
           transactions := transactions d @ [(uid, ''bet'', amt, audit_tag room g)]\<rparr>,
         [Bet_success amt, Balance_update (num_add bal (- amt))]))
   \<and> (Bet_success a \<in> set (snd (snd (on_place_bet rooms d uid room amt))) \<longrightarrow>
        a = amt \<and>
        (\<exists>g bal. rooms room = Some g \<and> users d uid = Some bal \<and>
           fst (snd (on_place_bet rooms d uid room amt)) =
             d\<lparr>users := (users d)(uid \<mapsto> num_add bal (- amt)),
               transactions := transactions d @ [(uid, ''bet'', amt, audit_tag room g)]\<rparr>))"
proof (rule conjI; rule impI)
  assume a: "rooms room = Some g \<and> bets g uid = Some b \<and> \<not> 1.0 < multiplier g \<and> 0 < amt \<and>
    users d uid = Some bal \<and> 0 \<le> num_add bal (- amt)"
  then have "place_bet g d uid room amt =
       (g\<lparr>bets := (bets g)(uid \<mapsto> \<lparr>amount = amt, cashedOut = False, winAmount = 0\<rparr>)\<rparr>,
        d\<lparr>users := (users d)(uid \<mapsto> num_add bal (- amt)),
          transactions := transactions d @ [(uid, ''bet'', amt, audit_tag room g)]\<rparr>,
        [Bet_success amt, Balance_update (num_add bal (- amt))])"
    by (simp add: place_bet_accepted)
  with a show "on_place_bet rooms d uid room amt =
        (rooms(room \<mapsto>
           g\<lparr>bets := (bets g)(uid \<mapsto> \<lparr>amount = amt, cashedOut = False, winAmount = 0\<rparr>)\<rparr>),
         d\<lparr>users := (users d)(uid \<mapsto> num_add bal (- amt)),
           transactions := transactions d @ [(uid, ''bet'', amt, audit_tag room g)]\<rparr>,
         [Bet_success amt, Balance_update (num_add bal (- amt))])"
    by (simp add: on_place_bet_Room)
next
  assume mem: "Bet_success a \<in> set (snd (snd (on_place_bet rooms d uid room amt)))"
  then obtain g where g: "rooms room = Some g"
    using on_place_bet_success by blast
  from mem have mem': "Bet_success a \<in> set (snd (snd (place_bet g d uid room amt)))"
    by (simp add: on_place_bet_Room [of rooms room g, OF g])
  have "a = amt \<and> (\<exists>bal. users d uid = Some bal \<and>
      fst (snd (place_bet g d uid room amt)) =
        d\<lparr>users := (users d)(uid \<mapsto> num_add bal (- amt)),
          transactions := transactions d @ [(uid, ''bet'', amt, audit_tag room g)]\<rparr>)"
    using mem'
    by (cases rule: place_bet_cases [where g = g and d = d and uid = uid and room = room
          and amt = amt]) simp_all
  then show "a = amt \<and>
        (\<exists>g bal. rooms room = Some g \<and> users d uid = Some bal \<and>
           fst (snd (on_place_bet rooms d uid room amt)) =
             d\<lparr>users := (users d)(uid \<mapsto> num_add bal (- amt)),
               transactions := transactions d @ [(uid, ''bet'', amt, audit_tag room g)]\<rparr>)"
    using g by (auto simp: on_place_bet_Room [of rooms room g, OF g])
qed

text \<open>
  The second bet of the user of the example, in the same round: it is accepted, the
  balance goes from 900 to 850 with one transaction added, and the Bet of 100 is
  replaced by one of 50.
\<close>

theorem place_bet_replaces_existing_bet_witness:
  "demo_rooms ''ETHRX'' = Some (game demo_bet)
   \<and> bets (game demo_bet) 1 = Some demo_wager
   \<and> users (ledger demo_bet) 1 = Some 900
   \<and> on_place_bet demo_rooms (ledger demo_bet) 1 ''ETHRX'' 50 =
       (demo_rooms(''ETHRX'' \<mapsto>
          (game demo_bet)\<lparr>bets := [1 \<mapsto> \<lparr>amount = 50, cashedOut = False, winAmount = 0\<rparr>]\<rparr>),
        \<lparr>users = [1 \<mapsto> 850],
         transactions = [(1, ''bet'', 100, ''room:ETHRX:nonce:2''),
                         (1, ''bet'', 50, ''room:ETHRX:nonce:2'')]\<rparr>,
        [Bet_success 50, Balance_update 850])
   \<and> Bet_success 50 \<in> set (snd (snd (on_place_bet demo_rooms (ledger demo_bet) 1 ''ETHRX'' 50)))"
proof -
  have n: "num_add 900 (- 50) = 850" by (simp add: num_add_def)
  have h: "demo_rooms ''ETHRX'' = Some (game demo_bet) \<and>
      bets (game demo_bet) 1 = Some demo_wager \<and> \<not> 1.0 < multiplier (game demo_bet) \<and>
      (0::real) < 50 \<and> users (ledger demo_bet) 1 = Some 900 \<and> 0 \<le> num_add 900 (- 50)"
    unfolding n by (simp add: demo_rooms_def demo_bet_eq demo_room_simps)
  have t: "audit_tag ''ETHRX'' (game demo_bet) = ''room:ETHRX:nonce:2''"
    by (simp add: audit_tag_demo demo_bet_eq demo_room_simps)
  from place_bet_replaces_existing_bet [of demo_rooms "''ETHRX''" "game demo_bet" 1 demo_wager
      50 "ledger demo_bet" 900 50] h
  have r: "on_place_bet demo_rooms (ledger demo_bet) 1 ''ETHRX'' 50 =
        (demo_rooms(''ETHRX'' \<mapsto>
           (game demo_bet)\<lparr>bets := (bets (game demo_bet))
              (1 \<mapsto> \<lparr>amount = 50, cashedOut = False, winAmount = 0\<rparr>)\<rparr>),
         (ledger demo_bet)\<lparr>users := (users (ledger demo_bet))(1 \<mapsto> num_add 900 (- 50)),
           transactions := transactions (ledger demo_bet) @
             [(1, ''bet'', 50, audit_tag ''ETHRX'' (game demo_bet))]\<rparr>,
         [Bet_success 50, Balance_update (num_add 900 (- 50))])"
    by blast
  have e: "on_place_bet demo_rooms (ledger demo_bet) 1 ''ETHRX'' 50 =
       (demo_rooms(''ETHRX'' \<mapsto>
          (game demo_bet)\<lparr>bets := [1 \<mapsto> \<lparr>amount = 50, cashedOut = False, winAmount = 0\<rparr>]\<rparr>),
        \<lparr>users = [1 \<mapsto> 850],
         transactions = [(1, ''bet'', 100, ''room:ETHRX:nonce:2''),
                         (1, ''bet'', 50, ''room:ETHRX:nonce:2'')]\<rparr>,
        [Bet_success 50, Balance_update 850])"
    unfolding r n t by (simp add: demo_bet_eq)
  have m: "Bet_success 50 \<in>
      set (snd (snd (on_place_bet demo_rooms (ledger demo_bet) 1 ''ETHRX'' 50)))"
    unfolding e by simp
  from h e m show ?thesis by blast
qed

text \<open>
  C2 as stated fails: the user of the example holds a Bet of 100, and the second
  bet of 50 is not rejected but debited, and it replaces the first.
\<close>

theorem second_bet_is_accepted:
  "bets (game demo_bet) 1 = Some \<lparr>amount = 100, cashedOut = False, winAmount = 0\<rparr>
   \<and> users (ledger demo_bet) 1 = Some 900
   \<and> snd (step H_demo S_demo (PlaceBet 1 50) demo_bet) = [Bet_success 50, Balance_update 850]
   \<and> users (ledger (fst (step H_demo S_demo (PlaceBet 1 50) demo_bet))) 1 = Some 850
   \<and> bets (game (fst (step H_demo S_demo (PlaceBet 1 50) demo_bet))) 1 =
       Some \<lparr>amount = 50, cashedOut = False, winAmount = 0\<rparr>"
  by (simp add: demo_bet_eq demo_room_simps demo_wager_def place_bet_def updateUserBalance_def num_add_def num_mul_def
      findUserById_def)

lemma phase_of_demo:
  "phase_of demo_bet = BETTING" "phase_of demo_late = RUNNING" "phase_of demo_running = RUNNING"
  "phase_of demo_crashed = CRASHED" "phase_of demo_lost = CRASHED"
  by (simp_all add: phase_of_def demo_bet_eq demo_late_eq demo_running_eq demo_crashed_eq
      demo_lost_eq demo_room_simps)

text \<open>
  C3 (as amended). A cash-out succeeds only while the flag \<open>isRunning\<close> of the
  room is set, which it is from \<open>startGame\<close> on, through the betting window and the
  running phase, until \<open>crashGame\<close>: every cash-out handled during the cooldown
  after a crash fails with ``Game not running'', and neither the room nor the
  ledger changes, so nothing is credited.
\<close>

theorem cash_out_requires_isRunning:
  "(phase_of w = CRASHED \<longrightarrow> step H S (CashOut uid) w = (w, [Error ''Game not running'']))
   \<and> (Cash_out_success m a \<in> set (snd (step H S (CashOut uid) w)) \<longrightarrow>
        isRunning (game w) \<and> phase_of w \<noteq> CRASHED)
   \<and> (ledger (fst (step H S (CashOut uid) w)) \<noteq> ledger w \<longrightarrow>
        isRunning (game w) \<and> phase_of w \<noteq> CRASHED)"
proof (intro conjI impI)
  assume "phase_of w = CRASHED"
  then have "\<not> isRunning (game w)"
    by (simp add: phase_of_def split: if_splits)
  then show "step H S (CashOut uid) w = (w, [Error ''Game not running''])"
    by (simp add: cash_out_not_running)
next
  assume "Cash_out_success m a \<in> set (snd (step H S (CashOut uid) w))"
  then show r: "isRunning (game w)"
    by (cases "isRunning (game w)") (simp_all add: cash_out_not_running)
  then show "phase_of w \<noteq> CRASHED" by (simp add: phase_of_def)
next
  assume "ledger (fst (step H S (CashOut uid) w)) \<noteq> ledger w"
  then show r: "isRunning (game w)"
    by (cases "isRunning (game w)") (simp_all add: cash_out_not_running)
  then show "phase_of w \<noteq> CRASHED" by (simp add: phase_of_def)
qed

lemma cash_out_demo_running:
  "step H_demo S_demo (CashOut 1) demo_running =
     (demo_cashed, [Cash_out_success 1 100, Balance_update 1000])"
  by (simp add: demo_cashed_eq)
     (simp add: demo_running_eq cash_out_def updateUserBalance_def num_add_def num_mul_def
      findUserById_def audit_tag_demo demo_room_simps demo_wager_def num_gt_def)

theorem cash_out_requires_isRunning_witness:
  "phase_of demo_lost = CRASHED
   \<and> step H_demo S_demo (CashOut 1) demo_lost = (demo_lost, [Error ''Game not running''])
   \<and> Cash_out_success 1 100 \<in> set (snd (step H_demo S_demo (CashOut 1) demo_running))
   \<and> ledger (fst (step H_demo S_demo (CashOut 1) demo_running)) \<noteq> ledger demo_running
   \<and> isRunning (game demo_running) \<and> phase_of demo_running \<noteq> CRASHED"
proof -
  have c: "phase_of demo_lost = CRASHED" by (rule phase_of_demo)
  have s: "step H_demo S_demo (CashOut 1) demo_lost = (demo_lost, [Error ''Game not running''])"
    using c cash_out_requires_isRunning [of demo_lost H_demo S_demo 1 1 100] by blast
  have a: "Cash_out_success 1 100 \<in> set (snd (step H_demo S_demo (CashOut 1) demo_running))"
    by (simp only: cash_out_demo_running) simp
  have "transactions (ledger demo_cashed) \<noteq> transactions (ledger demo_running)"
    by (simp add: demo_cashed_eq demo_running_eq)
  then have b: "ledger (fst (step H_demo S_demo (CashOut 1) demo_running)) \<noteq> ledger demo_running"
    by (simp only: cash_out_demo_running fst_conv) auto
  have r: "isRunning (game demo_running) \<and> phase_of demo_running \<noteq> CRASHED"
    using a cash_out_requires_isRunning [of demo_running H_demo S_demo 1 1 100] by blast
  show ?thesis using c s a b r by blast
qed

text \<open>
  C3 as stated fails: in the betting window of the example, before the loop has
  started, the cash-out of the user succeeds at the multiplier 1 and credits 100.
\<close>

theorem cash_out_in_betting_window:
  "phase_of demo_bet = BETTING
   \<and> users (ledger demo_bet) 1 = Some 900
   \<and> snd (step H_demo S_demo (CashOut 1) demo_bet) = [Cash_out_success 1 100, Balance_update 1000]
   \<and> users (ledger (fst (step H_demo S_demo (CashOut 1) demo_bet))) 1 = Some 1000"
  by (simp add: phase_of_demo)
     (simp add: demo_bet_eq cash_out_def updateUserBalance_def num_add_def num_mul_def
      findUserById_def audit_tag_demo demo_room_simps demo_wager_def num_gt_def)

text \<open>
  C5 (as amended). Bet acceptance closes once the multiplier is above 1.0: every
  bet handled while the multiplier of the room is strictly greater than 1.0 is
  rejected with ``Game already started'', and neither the room nor the ledger
  changes, so nothing is debited; and that rejection is given in no other case.
\<close>

theorem place_bet_closes_above_1:
  "(1.0 < multiplier (game w) \<longrightarrow>
      step H S (PlaceBet uid amt) w = (w, [Bet_error ''Game already started'']))
   \<and> (Bet_error ''Game already started'' \<in> set (snd (step H S (PlaceBet uid amt) w)) \<longrightarrow>
        1.0 < multiplier (game w))"
proof (intro conjI impI)
  assume "1.0 < multiplier (game w)"
  then show "step H S (PlaceBet uid amt) w = (w, [Bet_error ''Game already started''])"
    by (simp add: place_bet_late)
next
  assume mem: "Bet_error ''Game already started'' \<in> set (snd (step H S (PlaceBet uid amt) w))"
  show "1.0 < multiplier (game w)"
  proof (cases rule: place_bet_cases [where g = "game w" and d = "ledger w" and uid = uid
        and room = "roomName (game w)" and amt = amt])
    case (refused e)
    then show ?thesis using mem by (auto simp: updateUserBalance_Inl)
  qed (use mem in simp_all)
qed

theorem place_bet_closes_above_1_witness:
  "1.0 < multiplier (game demo_lost)
   \<and> step H_demo S_demo (PlaceBet 1 100) demo_lost
       = (demo_lost, [Bet_error ''Game already started''])
   \<and> Bet_error ''Game already started'' \<in> set (snd (step H_demo S_demo (PlaceBet 1 100) demo_lost))"
proof -
  have a: "1.0 < multiplier (game demo_lost)" by (simp add: demo_lost_eq)
  then have b: "Bet_error ''Game already started'' \<in>
      set (snd (step H_demo S_demo (PlaceBet 1 100) demo_lost))"
    by (simp add: place_bet_late)
  show ?thesis
    using a b place_bet_closes_above_1 [of demo_lost H_demo S_demo 1 100] by simp
qed

text \<open>
  C5 as stated fails: in the example the loop has started at the scheduled time
  6000 and the room is in its running phase, the multiplier still being 1; the bet
  of 100 is accepted and debited.
\<close>

theorem bet_accepted_after_running_began:
  "phase_of demo_late = RUNNING
   \<and> startTime (game demo_late) = 6000 \<and> interval demo_late = Some 6000
   \<and> snd (step H_demo S_demo (PlaceBet 1 100) demo_late) = [Bet_success 100, Balance_update 900]
   \<and> users (ledger (fst (step H_demo S_demo (PlaceBet 1 100) demo_late))) 1 = Some 900"
  by (simp add: phase_of_demo)
     (simp add: demo_late_eq demo_room_simps demo_ledger_def place_bet_def updateUserBalance_def num_add_def num_mul_def
      findUserById_def)

text \<open>
  C1, at the input where the code fails it. The user of the example holds an open
  Bet of 100 in the running round, and the update of the balance is rejected. The
  handler has marked the Bet as cashed out with the win of 100 before the call, and
  leaves it so: the room has changed, although nothing was credited and nothing
  was sent.
\<close>

theorem cash_out_marks_bet_when_ledger_fails:
  "reachable H_demo S_demo demo_unpaid
   \<and> bets (game demo_unpaid) 1 = Some \<lparr>amount = 100, cashedOut = False, winAmount = 0\<rparr>
   \<and> updateUserBalance (ledger demo_unpaid) 1 100 ''win''
        (audit_tag (roomName (game demo_unpaid)) (game demo_unpaid)) = Inl ''User not found''
   \<and> snd (step H_demo S_demo (CashOut 1) demo_unpaid) = []
   \<and> ledger (fst (step H_demo S_demo (CashOut 1) demo_unpaid)) = ledger demo_unpaid
   \<and> bets (game (fst (step H_demo S_demo (CashOut 1) demo_unpaid))) 1 =
       Some \<lparr>amount = 100, cashedOut = True, winAmount = 100\<rparr>
   \<and> game (fst (step H_demo S_demo (CashOut 1) demo_unpaid)) \<noteq> game demo_unpaid"
proof -
  have r: "reachable H_demo S_demo demo_unpaid"
    unfolding demo_unpaid_def by (rule reachable.ledger_changed) (rule reachable_demo)
  have e: "demo_unpaid =
     \<lparr>game = demo_room\<lparr>bets := [1 \<mapsto> demo_wager]\<rparr>,
      ledger = \<lparr>users = Map.empty, transactions = []\<rparr>,
      loopTimeout = False, interval = Some 6000, restartTimeout = False\<rparr>"
    by (simp add: demo_unpaid_def demo_running_eq)
  have b: "bets (game (fst (step H_demo S_demo (CashOut 1) demo_unpaid))) 1 =
       Some \<lparr>amount = 100, cashedOut = True, winAmount = 100\<rparr>"
    by (simp add: e cash_out_def updateUserBalance_def num_add_def num_mul_def demo_room_simps demo_wager_def num_gt_def)
  have "bets (game (fst (step H_demo S_demo (CashOut 1) demo_unpaid))) 1 \<noteq>
      bets (game demo_unpaid) 1"
    unfolding b by (simp add: e demo_wager_def)
  then have n: "game (fst (step H_demo S_demo (CashOut 1) demo_unpaid)) \<noteq> game demo_unpaid"
    by auto
  show ?thesis
    using r b n
    by (simp add: e cash_out_def updateUserBalance_def num_add_def num_mul_def demo_room_simps demo_wager_def num_gt_def)
qed

text \<open>
  The same in general, and the sibling path: a bet whose debit is rejected leaves
  the room and the ledger as they were.
\<close>

lemma place_bet_ledger_failure:
  "updateUserBalance d uid (- amt) ''bet'' (audit_tag room g) = Inl e \<Longrightarrow>
     fst (place_bet g d uid room amt) = g \<and> fst (snd (place_bet g d uid room amt)) = d"
  by (cases rule: place_bet_cases [where g = g and d = d and uid = uid and room = room
        and amt = amt]) (auto simp: updateUserBalance_Inl)

lemma cash_out_ledger_failure:
  "isRunning g \<Longrightarrow> bets g uid = Some b \<Longrightarrow> \<not> cashedOut b \<Longrightarrow>
     \<not> num_gt (multiplier g) (crashPoint g) \<Longrightarrow>
     updateUserBalance d uid (real_of_int \<lfloor>num_mul (amount b) (multiplier g)\<rfloor>) ''win'' (audit_tag room g)
       = Inl e \<Longrightarrow>
     bets (fst (cash_out g d uid room)) uid =
       Some (b\<lparr>cashedOut := True, winAmount := real_of_int \<lfloor>num_mul (amount b) (multiplier g)\<rfloor>\<rparr>)
     \<and> fst (cash_out g d uid room) \<noteq> g"
proof -
  assume a: "isRunning g" "bets g uid = Some b" "\<not> cashedOut b"
    "\<not> num_gt (multiplier g) (crashPoint g)"
    "updateUserBalance d uid (real_of_int \<lfloor>num_mul (amount b) (multiplier g)\<rfloor>) ''win'' (audit_tag room g)
       = Inl e"
  have m: "bets (fst (cash_out g d uid room)) uid =
       Some (b\<lparr>cashedOut := True, winAmount := real_of_int \<lfloor>num_mul (amount b) (multiplier g)\<rfloor>\<rparr>)"
    using a by (simp add: cash_out_unpaid)
  have "b\<lparr>cashedOut := True, winAmount := real_of_int \<lfloor>num_mul (amount b) (multiplier g)\<rfloor>\<rparr> \<noteq> b"
    using a(3) by (metis bet.select_convs(2) bet.surjective bet.update_convs(2) bet.update_convs(3))
  then have "bets (fst (cash_out g d uid room)) uid \<noteq> bets g uid"
    using m a(2) by simp
  then have "fst (cash_out g d uid room) \<noteq> g" by auto
  then show ?thesis using m by simp
qed

section \<open>Rounds\<close>

text \<open>Only \<open>startGame\<close> touches the seed, its hash, the nonce and the crash point.\<close>

lemma interval_tick_round:
  "serverSeed (fst (interval_tick ls now g)) = serverSeed g"
  "serverSeedHash (fst (interval_tick ls now g)) = serverSeedHash g"
  "nonce (fst (interval_tick ls now g)) = nonce g"
  "crashPoint (fst (interval_tick ls now g)) = crashPoint g"
  "bets (fst (interval_tick ls now g)) = bets g"
  by (simp_all add: interval_tick_def crashGame_def Let_def)

lemma place_bet_round:
  "serverSeed (fst (place_bet g d uid room amt)) = serverSeed g"
  "serverSeedHash (fst (place_bet g d uid room amt)) = serverSeedHash g"
  "nonce (fst (place_bet g d uid room amt)) = nonce g"
  "crashPoint (fst (place_bet g d uid room amt)) = crashPoint g"
  "isRunning (fst (place_bet g d uid room amt)) = isRunning g"
  "multiplier (fst (place_bet g d uid room amt)) = multiplier g"
  by (subst place_bet_room, simp)+

lemma cash_out_round:
  "serverSeed (fst (cash_out g d uid room)) = serverSeed g"
  "serverSeedHash (fst (cash_out g d uid room)) = serverSeedHash g"
  "nonce (fst (cash_out g d uid room)) = nonce g"
  "crashPoint (fst (cash_out g d uid room)) = crashPoint g"
  "isRunning (fst (cash_out g d uid room)) = isRunning g"
  "multiplier (fst (cash_out g d uid room)) = multiplier g"
  by (subst cash_out_room, simp)+

lemma step_round:
  assumes "\<not> is_start i"
  shows "serverSeed (game (fst (step H S i w))) = serverSeed (game w)"
    and "serverSeedHash (game (fst (step H S i w))) = serverSeedHash (game w)"
    and "nonce (game (fst (step H S i w))) = nonce (game w)"
    and "crashPoint (game (fst (step H S i w))) = crashPoint (game w)"
  using assms
  by (cases i; simp add: is_start_def interval_tick_round place_bet_round cash_out_round
      case_prod_beta split: option.splits)+

lemma step_stays_stopped:
  assumes "\<not> is_start i" and "\<not> isRunning (game w)"
  shows "\<not> isRunning (game (fst (step H S i w)))"
  using assms
  by (cases i)
     (auto simp: is_start_def interval_tick_def crashGame_def Let_def place_bet_round
        cash_out_round case_prod_beta split: option.splits)

lemma run_stays_stopped:
  "list_all (\<lambda>i. \<not> is_start i) ins \<Longrightarrow> \<not> isRunning (game w) \<Longrightarrow>
     \<not> isRunning (game (fst (run H S ins w)))"
proof (induction ins arbitrary: w)
  case Nil
  then show ?case by simp
next
  case (Cons i ins)
  from Cons.prems have "\<not> isRunning (game (fst (step H S i w)))"
    by (simp add: step_stays_stopped)
  with Cons.prems Cons.IH [of "fst (step H S i w)"] show ?case
    by (simp add: case_prod_beta)
qed

text \<open>
  C9 (as amended). When the sample taken by the loop has reached the crash point,
  the same callback runs \<open>crashGame\<close>, which emits the crash event and clears
  \<open>isRunning\<close>. Every cash-out handled after that, up to the start of the next
  round, fails with ``Game not running'', and neither the room nor the ledger
  changes, so nothing is credited.
\<close>

theorem cash_out_after_detected_crash:
  "interval w = Some loopStart
   \<and> num_ge (growth (lambda (game w)) (real_of_int (now - loopStart) / 1000)) (crashPoint (game w))
   \<and> list_all (\<lambda>i. \<not> is_start i) ins \<longrightarrow>
     snd (step H S (IntervalFires now) w) = [Crash (crashPoint (game w)) (serverSeed (game w))]
     \<and> step H S (CashOut uid) (fst (run H S ins (fst (step H S (IntervalFires now) w)))) =
         (fst (run H S ins (fst (step H S (IntervalFires now) w))), [Error ''Game not running''])"
proof (rule impI)
  assume a: "interval w = Some loopStart
   \<and> num_ge (growth (lambda (game w)) (real_of_int (now - loopStart) / 1000)) (crashPoint (game w))
   \<and> list_all (\<lambda>i. \<not> is_start i) ins"
  let ?w1 = "fst (step H S (IntervalFires now) w)"
  let ?w2 = "fst (run H S ins ?w1)"
  from a have tick: "interval_tick loopStart now (game w) =
      (game w\<lparr>multiplier := growth (lambda (game w)) (real_of_int (now - loopStart) / 1000),
              isRunning := False\<rparr>,
       [Crash (crashPoint (game w)) (serverSeed (game w))], True)"
    by (simp add: interval_tick_def crashGame_def Let_def)
  from a tick have out: "snd (step H S (IntervalFires now) w) =
      [Crash (crashPoint (game w)) (serverSeed (game w))]"
    by simp
  from a tick have "\<not> isRunning (game ?w1)" by simp
  with a have "\<not> isRunning (game ?w2)" by (simp add: run_stays_stopped)
  then have "step H S (CashOut uid) ?w2 = (?w2, [Error ''Game not running''])"
    by (simp add: cash_out_not_running)
  with out show "snd (step H S (IntervalFires now) w) =
        [Crash (crashPoint (game w)) (serverSeed (game w))]
     \<and> step H S (CashOut uid) ?w2 = (?w2, [Error ''Game not running''])"
    by simp
qed

lemma growth_demo_running:
  "growth (lambda (game demo_running)) (real_of_int (6050 - 6000) / 1000) = 1.02"
  using growth_first_sample by (simp add: demo_running_eq demo_room_simps)

theorem cash_out_after_detected_crash_witness:
  "interval demo_running = Some 6000
   \<and> num_ge (growth (lambda (game demo_running)) (real_of_int (6050 - 6000) / 1000))
       (crashPoint (game demo_running))
   \<and> list_all (\<lambda>i. \<not> is_start i) [PlaceBet 1 5]
   \<and> snd (step H_demo S_demo (IntervalFires 6050) demo_running) = [Crash (Some 1.01) demo_seed]
   \<and> snd (step H_demo S_demo (CashOut 1)
        (fst (run H_demo S_demo [PlaceBet 1 5]
           (fst (step H_demo S_demo (IntervalFires 6050) demo_running))))) =
       [Error ''Game not running'']"
proof -
  have h: "interval demo_running = Some 6000
   \<and> num_ge (growth (lambda (game demo_running)) (real_of_int (6050 - 6000) / 1000))
       (crashPoint (game demo_running))
   \<and> list_all (\<lambda>i. \<not> is_start i) [PlaceBet 1 5]"
    unfolding growth_demo_running
    by (simp add: demo_running_eq demo_room_simps num_ge_def is_start_def)
  have c: "crashPoint (game demo_running) = Some 1.01" "serverSeed (game demo_running) = demo_seed"
    by (simp_all add: demo_running_eq demo_room_simps)
  from cash_out_after_detected_crash [of demo_running 6000 6050 "[PlaceBet 1 5]" H_demo S_demo 1] h
  have "snd (step H_demo S_demo (IntervalFires 6050) demo_running) =
         [Crash (crashPoint (game demo_running)) (serverSeed (game demo_running))]
     \<and> step H_demo S_demo (CashOut 1)
         (fst (run H_demo S_demo [PlaceBet 1 5]
            (fst (step H_demo S_demo (IntervalFires 6050) demo_running)))) =
         (fst (run H_demo S_demo [PlaceBet 1 5]
            (fst (step H_demo S_demo (IntervalFires 6050) demo_running))),
          [Error ''Game not running''])"
    by blast
  then show ?thesis using h unfolding c by simp
qed

text \<open>
  C9 as stated fails: in the example the sample 1.02 at time 6050 reaches the
  crash point 1.01, and the cash-out of the open Bet that follows is answered with
  ``Game not running'', not with ``Crashed!''.
\<close>

theorem cash_out_after_crash_is_not_too_late:
  "snd (step H_demo S_demo (IntervalFires 6050) demo_running) = [Crash (Some 1.01) demo_seed]
   \<and> demo_lost = fst (step H_demo S_demo (IntervalFires 6050) demo_running)
   \<and> multiplier (game demo_lost) = 1.02 \<and> crashPoint (game demo_lost) = Some 1.01
   \<and> bets (game demo_lost) 1 = Some \<lparr>amount = 100, cashedOut = False, winAmount = 0\<rparr>
   \<and> snd (step H_demo S_demo (CashOut 1) demo_lost) = [Error ''Game not running'']
   \<and> snd (step H_demo S_demo (CashOut 1) demo_lost) \<noteq> [Error ''Crashed!'']"
proof -
  have a: "snd (step H_demo S_demo (IntervalFires 6050) demo_running) =
      [Crash (Some 1.01) demo_seed]"
    by (simp add: demo_running_eq interval_tick_demo demo_room_simps)
  have b: "demo_lost = fst (step H_demo S_demo (IntervalFires 6050) demo_running)"
    by (rule demo_lost_def)
  have c: "multiplier (game demo_lost) = 1.02 \<and> crashPoint (game demo_lost) = Some 1.01
   \<and> bets (game demo_lost) 1 = Some \<lparr>amount = 100, cashedOut = False, winAmount = 0\<rparr>"
    by (simp add: demo_lost_eq demo_room_simps demo_wager_def)
  have d: "snd (step H_demo S_demo (CashOut 1) demo_lost) = [Error ''Game not running'']"
    by (simp add: demo_lost_eq cash_out_not_running)
  have e: "snd (step H_demo S_demo (CashOut 1) demo_lost) \<noteq> [Error ''Crashed!'']"
    unfolding d by simp
  from a b c d e show ?thesis by blast
qed

text \<open>The answer ``Crashed!'' is given when the room is found above its crash point.\<close>

lemma cash_out_crashed_answer:
  "Error ''Crashed!'' \<in> set (snd (snd (cash_out g d uid room))) \<longleftrightarrow>
     isRunning g \<and> (\<exists>b. bets g uid = Some b \<and> \<not> cashedOut b) \<and>
     num_gt (multiplier g) (crashPoint g)"
  by (cases rule: cash_out_cases [where g = g and d = d and uid = uid and room = room]) auto

section \<open>A longer round of the example room\<close>














section \<open>A Bet is cashed out once\<close>







section \<open>The stream of events of a room\<close>

lemma quiet_stream:
  "list_all quiet es \<Longrightarrow>
     commitments_open S a es \<and> crashes_recomputable H a es \<and> last_start a es = a"
proof (induction es)
  case Nil
  then show ?case by simp
next
  case (Cons e es)
  then show ?case by (cases e) (simp_all add: quiet_def)
qed

lemma last_start_append: "last_start a (xs @ ys) = last_start (last_start a xs) ys"
proof (induction xs arbitrary: a)
  case Nil
  then show ?case by simp
next
  case (Cons e xs)
  then show ?case by (cases e) simp_all
qed

lemma commitments_open_append:
  "commitments_open S a (xs @ ys) \<longleftrightarrow>
     commitments_open S a xs \<and> commitments_open S (last_start a xs) ys"
proof (induction xs arbitrary: a)
  case Nil
  then show ?case by simp
next
  case (Cons e xs)
  then show ?case by (cases e) auto
qed

lemma crashes_recomputable_append:
  "crashes_recomputable H a (xs @ ys) \<longleftrightarrow>
     crashes_recomputable H a xs \<and> crashes_recomputable H (last_start a xs) ys"
proof (induction xs arbitrary: a)
  case Nil
  then show ?case by simp
next
  case (Cons e xs)
  then show ?case by (cases e) auto
qed

lemma place_bet_quiet: "list_all quiet (snd (snd (place_bet g d uid room amt)))"
  by (cases rule: place_bet_cases [where g = g and d = d and uid = uid and room = room
        and amt = amt]) (simp_all add: quiet_def)

lemma cash_out_quiet: "list_all quiet (snd (snd (cash_out g d uid room)))"
  by (cases rule: cash_out_cases [where g = g and d = d and uid = uid and room = room])
     (simp_all add: quiet_def)

lemma committed_bets: "committed H S a (g\<lparr>bets := m\<rparr>) = committed H S a g"
  by (simp add: committed_def)

lemma startGame_committed:
  assumes "committed H S a g"
  shows "commitments_open S a (fst (snd (startGame H S now rnd g)))"
    and "crashes_recomputable H a (fst (snd (startGame H S now rnd g)))"
    and "committed H S (last_start a (fst (snd (startGame H S now rnd g))))
           (fst (startGame H S now rnd g))"
  using assms by (simp_all add: startGame_def rotateSeed_def committed_def Let_def)

lemma interval_tick_committed:
  assumes "committed H S a g"
  shows "commitments_open S a (fst (snd (interval_tick ls now g)))"
    and "crashes_recomputable H a (fst (snd (interval_tick ls now g)))"
    and "committed H S (last_start a (fst (snd (interval_tick ls now g))))
           (fst (interval_tick ls now g))"
  using assms by (simp_all add: interval_tick_def crashGame_def committed_def Let_def)

lemma step_committed:
  assumes "committed H S a (game w)"
  shows "commitments_open S a (snd (step H S i w))
     \<and> crashes_recomputable H a (snd (step H S i w))
     \<and> committed H S (last_start a (snd (step H S i w))) (game (fst (step H S i w)))"
proof (cases i)
  case (RunGameLoopFires now)
  then show ?thesis using assms by simp
next
  case (IntervalFires now)
  then show ?thesis
    using assms interval_tick_committed [OF assms]
    by (simp add: case_prod_beta split: option.splits)
next
  case (StartGameFires now rnd)
  then show ?thesis
    using assms startGame_committed [OF assms]
    by (simp add: case_prod_beta)
next
  case (PlaceBet uid amt)
  let ?r = "place_bet (game w) (ledger w) uid (roomName (game w)) amt"
  have "committed H S a (fst ?r)"
    using assms by (subst place_bet_room) (simp add: committed_bets)
  then show ?thesis
    using PlaceBet quiet_stream [OF place_bet_quiet, of S a "game w" "ledger w" uid
        "roomName (game w)" amt H]
    by simp
next
  case (CashOut uid)
  let ?r = "cash_out (game w) (ledger w) uid (roomName (game w))"
  have "committed H S a (fst ?r)"
    using assms by (subst cash_out_room) (simp add: committed_bets)
  then show ?thesis
    using CashOut quiet_stream [OF cash_out_quiet, of S a "game w" "ledger w" uid
        "roomName (game w)" H]
    by simp
qed

lemma run_committed:
  "committed H S a (game w) \<Longrightarrow>
     commitments_open S a (snd (run H S ins w)) \<and> crashes_recomputable H a (snd (run H S ins w))"
proof (induction ins arbitrary: a w)
  case Nil
  then show ?case by simp
next
  case (Cons i ins)
  from step_committed [OF Cons.prems, of i]
  have s: "commitments_open S a (snd (step H S i w))"
    "crashes_recomputable H a (snd (step H S i w))"
    "committed H S (last_start a (snd (step H S i w))) (game (fst (step H S i w)))"
    by simp_all
  from Cons.IH [OF s(3)] s(1,2) show ?case
    by (simp add: case_prod_beta commitments_open_append crashes_recomputable_append)
qed

lemma new_world_committed:
  "\<exists>a. last_start None (snd (new_world H S tk lam name now rnd1 rnd2 d)) = a
     \<and> commitments_open S None (snd (new_world H S tk lam name now rnd1 rnd2 d))
     \<and> crashes_recomputable H None (snd (new_world H S tk lam name now rnd1 rnd2 d))
     \<and> committed H S a (game (fst (new_world H S tk lam name now rnd1 rnd2 d)))"
  by (simp add: new_world_def new_GameRoom_def startGame_def rotateSeed_def committed_def Let_def)

lemma run_round:
  "list_all (\<lambda>i. \<not> is_start i) ins \<Longrightarrow>
     serverSeed (game (fst (run H S ins w))) = serverSeed (game w) \<and>
     serverSeedHash (game (fst (run H S ins w))) = serverSeedHash (game w) \<and>
     nonce (game (fst (run H S ins w))) = nonce (game w) \<and>
     crashPoint (game (fst (run H S ins w))) = crashPoint (game w)"
proof (induction ins arbitrary: w)
  case Nil
  then show ?case by simp
next
  case (Cons i ins)
  then show ?case
    using Cons.IH [of "fst (step H S i w)"]
    by (simp add: case_prod_beta step_round)
qed

text \<open>
  C8. In the stream of events of a room, from its creation on and whatever
  happens to it, every crash event discloses a seed whose hash is the commitment
  hash of the last round-start event before it; and within a round, that is as
  long as \<open>startGame\<close> is not called, the seed and its hash in the room stay as
  they are.
\<close>

theorem commitment_opens_to_disclosed_seed:
  "commitments_open S None
     (snd (new_world H S tk lam name now rnd1 rnd2 d) @
      snd (run H S ins (fst (new_world H S tk lam name now rnd1 rnd2 d))))
   \<and> (list_all (\<lambda>i. \<not> is_start i) ins' \<longrightarrow>
        serverSeed (game (fst (run H S ins' w))) = serverSeed (game w) \<and>
        serverSeedHash (game (fst (run H S ins' w))) = serverSeedHash (game w))"
proof (rule conjI)
  obtain a where a: "last_start None (snd (new_world H S tk lam name now rnd1 rnd2 d)) = a"
    "commitments_open S None (snd (new_world H S tk lam name now rnd1 rnd2 d))"
    "committed H S a (game (fst (new_world H S tk lam name now rnd1 rnd2 d)))"
    using new_world_committed [of H S tk lam name now rnd1 rnd2 d] by blast
  from run_committed [OF a(3), of ins] a(1,2)
  show "commitments_open S None
     (snd (new_world H S tk lam name now rnd1 rnd2 d) @
      snd (run H S ins (fst (new_world H S tk lam name now rnd1 rnd2 d))))"
    by (simp add: commitments_open_append)
next
  show "list_all (\<lambda>i. \<not> is_start i) ins' \<longrightarrow>
        serverSeed (game (fst (run H S ins' w))) = serverSeed (game w) \<and>
        serverSeedHash (game (fst (run H S ins' w))) = serverSeedHash (game w)"
    using run_round [of ins' H S w] by blast
qed

lemma new_world_demo:
  "new_world H_demo S_demo ''$ETHRX'' 1 ''ETHRX'' 0 rnd_demo rnd_demo demo_ledger =
     (demo_created, [Game_start ''$ETHRX'' 2 (S_demo demo_seed) 6000])"
  by (simp add: demo_created_eq) (simp add: new_world_def new_GameRoom_demo)

lemma demo_steps:
  "step H_demo S_demo (PlaceBet 1 100) demo_created =
     (demo_bet, [Bet_success 100, Balance_update 900])"
  "step H_demo S_demo (RunGameLoopFires 6000) demo_bet = (demo_running, [])"
  "step H_demo S_demo (IntervalFires 6050) demo_running =
     (demo_lost, [Crash (Some 1.01) demo_seed])"
proof -
  have "snd (step H_demo S_demo (PlaceBet 1 100) demo_created) =
      [Bet_success 100, Balance_update 900]"
    by (simp add: demo_created_eq place_bet_def updateUserBalance_def num_add_def num_mul_def
        findUserById_def demo_room_simps demo_ledger_def)
  then show "step H_demo S_demo (PlaceBet 1 100) demo_created =
     (demo_bet, [Bet_success 100, Balance_update 900])"
    by (simp only: demo_bet_def prod_eq_iff fst_conv snd_conv simp_thms)
  have "snd (step H_demo S_demo (RunGameLoopFires 6000) demo_bet) = []"
    by (simp add: demo_bet_eq)
  then show "step H_demo S_demo (RunGameLoopFires 6000) demo_bet = (demo_running, [])"
    by (simp only: demo_running_def prod_eq_iff fst_conv snd_conv simp_thms)
  have "snd (step H_demo S_demo (IntervalFires 6050) demo_running) =
      [Crash (Some 1.01) demo_seed]"
    by (simp add: demo_running_eq interval_tick_demo demo_room_simps)
  then show "step H_demo S_demo (IntervalFires 6050) demo_running =
     (demo_lost, [Crash (Some 1.01) demo_seed])"
    by (simp only: demo_lost_def prod_eq_iff fst_conv snd_conv simp_thms)
qed

lemma demo_round:
  "run H_demo S_demo [PlaceBet 1 100, RunGameLoopFires 6000, IntervalFires 6050] demo_created =
     (demo_lost, [Bet_success 100, Balance_update 900, Crash (Some 1.01) demo_seed])"
  by (simp only: run.simps demo_steps prod.case append.simps)

theorem commitment_opens_to_disclosed_seed_witness:
  "snd (new_world H_demo S_demo ''$ETHRX'' 1 ''ETHRX'' 0 rnd_demo rnd_demo demo_ledger) @
   snd (run H_demo S_demo [PlaceBet 1 100, RunGameLoopFires 6000, IntervalFires 6050]
        (fst (new_world H_demo S_demo ''$ETHRX'' 1 ''ETHRX'' 0 rnd_demo rnd_demo demo_ledger))) =
     [Game_start ''$ETHRX'' 2 (S_demo demo_seed) 6000, Bet_success 100, Balance_update 900,
      Crash (Some 1.01) demo_seed]
   \<and> commitments_open S_demo None
       [Game_start ''$ETHRX'' 2 (S_demo demo_seed) 6000, Bet_success 100, Balance_update 900,
        Crash (Some 1.01) demo_seed]
   \<and> list_all (\<lambda>i. \<not> is_start i) [IntervalFires 6050]
   \<and> serverSeed (game (fst (run H_demo S_demo [IntervalFires 6050] demo_running))) =
       serverSeed (game demo_running)"
proof -
  have e: "snd (new_world H_demo S_demo ''$ETHRX'' 1 ''ETHRX'' 0 rnd_demo rnd_demo demo_ledger) @
   snd (run H_demo S_demo [PlaceBet 1 100, RunGameLoopFires 6000, IntervalFires 6050]
        (fst (new_world H_demo S_demo ''$ETHRX'' 1 ''ETHRX'' 0 rnd_demo rnd_demo demo_ledger))) =
     [Game_start ''$ETHRX'' 2 (S_demo demo_seed) 6000, Bet_success 100, Balance_update 900,
      Crash (Some 1.01) demo_seed]"
    by (simp only: new_world_demo demo_round fst_conv snd_conv) simp
  have n: "list_all (\<lambda>i. \<not> is_start i) [IntervalFires 6050]"
    by (simp add: is_start_def)
  from commitment_opens_to_disclosed_seed [of S_demo H_demo "''$ETHRX''" 1 "''ETHRX''" 0
      rnd_demo rnd_demo demo_ledger "[PlaceBet 1 100, RunGameLoopFires 6000, IntervalFires 6050]"
      "[IntervalFires 6050]" demo_running]
  show ?thesis
    unfolding e using e n by blast
qed

section \<open>The crash point\<close>

lemma hexval_table:
  "hexval CHR ''0'' = Some 0" "hexval CHR ''1'' = Some 1" "hexval CHR ''2'' = Some 2"
  "hexval CHR ''3'' = Some 3" "hexval CHR ''4'' = Some 4" "hexval CHR ''5'' = Some 5"
  "hexval CHR ''6'' = Some 6" "hexval CHR ''7'' = Some 7" "hexval CHR ''8'' = Some 8"
  "hexval CHR ''9'' = Some 9" "hexval CHR ''a'' = Some 10" "hexval CHR ''b'' = Some 11"
  "hexval CHR ''c'' = Some 12" "hexval CHR ''d'' = Some 13" "hexval CHR ''e'' = Some 14"
  "hexval CHR ''f'' = Some 15"
  by (simp_all add: hexval_def)

lemma digit_val_table:
  "digit_val CHR ''0'' = 0" "digit_val CHR ''1'' = 1" "digit_val CHR ''2'' = 2"
  "digit_val CHR ''3'' = 3" "digit_val CHR ''4'' = 4" "digit_val CHR ''5'' = 5"
  "digit_val CHR ''6'' = 6" "digit_val CHR ''7'' = 7" "digit_val CHR ''8'' = 8"
  "digit_val CHR ''9'' = 9" "digit_val CHR ''a'' = 10" "digit_val CHR ''b'' = 11"
  "digit_val CHR ''c'' = 12" "digit_val CHR ''d'' = 13" "digit_val CHR ''e'' = 14"
  "digit_val CHR ''f'' = 15"
  by (simp_all add: digit_val_def hex_digits_def)

lemma hexval_digit:
  assumes "c \<in> set hex_digits"
  shows "hexval c = Some (digit_val c)"
proof -
  from assms have "c \<in> set ''0123456789abcdef''" by (simp only: hex_digits_def)
  then show ?thesis using hexval_table digit_val_table by auto
qed

lemma digit_val_le_15:
  assumes "c \<in> set hex_digits"
  shows "digit_val c \<le> 15"
proof -
  from assms have "c \<in> set ''0123456789abcdef''" by (simp only: hex_digits_def)
  then show ?thesis using digit_val_table by auto
qed

lemma hex_digit_plain:
  assumes "c \<in> set hex_digits"
  shows "\<not> is_space c \<and> c \<noteq> CHR ''-'' \<and> c \<noteq> CHR ''+'' \<and> c \<noteq> CHR ''x'' \<and> c \<noteq> CHR ''X''"
proof -
  from assms have "c \<in> set ''0123456789abcdef''" by (simp only: hex_digits_def)
  then show ?thesis by (auto simp: is_space_def)
qed

lemma parse_digits_hex:
  "list_all (\<lambda>c. c \<in> set hex_digits) s \<Longrightarrow>
     parse_digits acc s = acc * 16 ^ length s + hex_number s"
proof (induction s arbitrary: acc)
  case Nil
  then show ?case by simp
next
  case (Cons c s)
  then show ?case by (simp add: hexval_digit algebra_simps)
qed

lemma parseInt16_hex:
  assumes "s \<noteq> []" and "list_all (\<lambda>c. c \<in> set hex_digits) s"
  shows "parseInt16 s = Some (int (hex_number s))"
proof -
  obtain c cs where s: "s = c # cs" using assms(1) by (cases s) auto
  with assms(2) have c: "c \<in> set hex_digits" and cs: "list_all (\<lambda>c. c \<in> set hex_digits) cs"
    by simp_all
  have strip: "strip_0x s = s"
  proof (cases cs)
    case Nil
    then show ?thesis by (simp add: s strip_0x_def)
  next
    case (Cons c1 rest)
    with cs have "c1 \<in> set hex_digits" by simp
    then show ?thesis using hex_digit_plain [of c1] by (simp add: s Cons strip_0x_def)
  qed
  have "parse_digits 0 s = hex_number s"
    using parse_digits_hex [OF assms(2), of 0] by simp
  then show ?thesis
    using hex_digit_plain [OF c] hexval_digit [OF c] strip
    by (simp add: parseInt16_def s Let_def)
qed

lemma getCrashPoint_spec:
  assumes "hex_digest (H (seed @ '':'' @ string_of_nat n) seed)"
  shows "getCrashPoint H seed n = Some (spec_crashPoint (H (seed @ '':'' @ string_of_nat n) seed))"
proof -
  let ?hash = "H (seed @ '':'' @ string_of_nat n) seed"
  from assms have len: "length ?hash = 64" and hex: "list_all (\<lambda>c. c \<in> set hex_digits) ?hash"
    by (simp_all add: hex_digest_def)
  have t13: "take 13 ?hash \<noteq> []" and t8: "take 8 ?hash \<noteq> []"
    using len by auto
  have h13: "list_all (\<lambda>c. c \<in> set hex_digits) (take 13 ?hash)"
    and h8: "list_all (\<lambda>c. c \<in> set hex_digits) (take 8 ?hash)"
    using hex by (auto simp: list_all_iff dest: in_set_takeD)
  have p13: "parseInt16 (substring 0 13 ?hash) = Some (int (hex_number (take 13 ?hash)))"
    using parseInt16_hex [OF t13 h13] by (simp add: substring_def)
  have p8: "parseInt16 (substring 0 8 ?hash) = Some (int (hex_number (take 8 ?hash)))"
    using parseInt16_hex [OF t8 h8] by (simp add: substring_def)
  have m: "int k mod 13 = 0 \<longleftrightarrow> k mod 13 = 0" for k :: nat
    by presburger
  show ?thesis
    unfolding getCrashPoint_def spec_crashPoint_def Let_def p13 p8
    by (simp add: m)
qed

text \<open>The crash point of the specification is a whole number of hundredths.\<close>

lemma hex_number_bound:
  "list_all (\<lambda>c. c \<in> set hex_digits) s \<Longrightarrow> hex_number s < 16 ^ length s"
proof (induction s)
  case Nil
  then show ?case by simp
next
  case (Cons c s)
  then have "digit_val c \<le> 15"
    by (simp add: digit_val_le_15)
  then have a: "digit_val c * 16 ^ length s \<le> 15 * 16 ^ length s" by simp
  from Cons have b: "hex_number s < 16 ^ length s" by simp
  have "hex_number (c # s) = digit_val c * 16 ^ length s + hex_number s" by simp
  moreover have "(16::nat) ^ length (c # s) = 16 * 16 ^ length s" by simp
  ultimately show ?case using a b by linarith
qed

lemma spec_crashPoint_hundredths:
  assumes "hex_digest digest"
  shows "spec_crashPoint digest =
     (if hex_number (take 13 digest) mod 13 = 0 then 1
      else real (max 100 ((99 * 2 ^ 32) div (2 ^ 32 - hex_number (take 8 digest)))) / 100)"
proof -
  let ?h = "hex_number (take 8 digest)"
  from assms have "list_all (\<lambda>c. c \<in> set hex_digits) (take 8 digest)" "length (take 8 digest) = 8"
    by (auto simp: hex_digest_def list_all_iff dest: in_set_takeD)
  from hex_number_bound [OF this(1)] this(2) have lt: "?h < 2 ^ 32" by simp
  then have pos: "0 < (2::real) ^ 32 - real ?h" by simp
  have "100 * 0.99 / (1 - real ?h / 2 ^ 32) = real (99 * 2 ^ 32) / real (2 ^ 32 - ?h)"
    using lt pos by (simp add: field_simps of_nat_diff)
  then have "\<lfloor>100 * 0.99 / (1 - real ?h / 2 ^ 32)\<rfloor> = int ((99 * 2 ^ 32) div (2 ^ 32 - ?h))"
    by (simp only: floor_divide_of_nat_eq)
  then show ?thesis
    by (simp add: spec_crashPoint_def max_def)
qed

text \<open>The nonce in the message of the keyed hash is its decimal numeral.\<close>

lemma digit_char_code:
  assumes "d < 10"
  shows "of_char (digit_char d) = 48 + d"
proof -
  from assms have "d = 0 \<or> d = 1 \<or> d = 2 \<or> d = 3 \<or> d = 4 \<or> d = 5 \<or> d = 6 \<or> d = 7 \<or> d = 8 \<or> d = 9"
    by arith
  then show ?thesis by (elim disjE) (simp_all add: digit_char_def)
qed

lemma digit_char_digit: "d < 10 \<Longrightarrow> digit_char d \<in> set ''0123456789''"
  unfolding digit_char_def by (rule nth_mem) simp

lemma decimal_value_snoc:
  "decimal_value (s @ [c]) = 10 * decimal_value s + (of_char c - 48)"
  by (simp add: decimal_value_def)

lemma string_of_nat_nonempty: "string_of_nat n \<noteq> []"
  by (subst string_of_nat.simps) simp

lemma decimal_value_string_of_nat: "decimal_value (string_of_nat n) = n"
proof (induction n rule: string_of_nat.induct)
  case (1 n)
  show ?case
  proof (cases "n < 10")
    case True
    then show ?thesis
      by (subst string_of_nat.simps) (simp add: decimal_value_def digit_char_code)
  next
    case False
    with 1 have "decimal_value (string_of_nat (n div 10)) = n div 10" by simp
    with False show ?thesis
      by (subst string_of_nat.simps) (simp add: decimal_value_snoc digit_char_code)
  qed
qed

lemma string_of_nat_digits: "list_all (\<lambda>c. c \<in> set ''0123456789'') (string_of_nat n)"
proof (induction n rule: string_of_nat.induct)
  case (1 n)
  show ?case
  proof (cases "n < 10")
    case True
    then show ?thesis
      using digit_char_digit [of n] by (subst string_of_nat.simps) simp
  next
    case False
    with 1 have "list_all (\<lambda>c. c \<in> set ''0123456789'') (string_of_nat (n div 10))" by simp
    with False show ?thesis
      using digit_char_digit [of "n mod 10"] by (subst string_of_nat.simps) simp
  qed
qed

lemma string_of_nat_leading: "hd (string_of_nat n) = CHR ''0'' \<Longrightarrow> n = 0"
proof (induction n rule: string_of_nat.induct)
  case (1 n)
  show ?case
  proof (cases "n < 10")
    case True
    with "1.prems" have "digit_char n = CHR ''0''"
      by (subst (asm) string_of_nat.simps) simp
    then have "(of_char (digit_char n) :: nat) = 48" by simp
    with True show ?thesis by (simp add: digit_char_code)
  next
    case False
    with "1.prems" have "hd (string_of_nat (n div 10)) = CHR ''0''"
      by (subst (asm) string_of_nat.simps) (simp add: string_of_nat_nonempty)
    with 1 False have "n div 10 = 0" by simp
    with False show ?thesis by simp
  qed
qed

text \<open>In a room that the server runs, the crash point is the one of its seed and nonce.\<close>

lemma reachable_committed: "reachable H S w \<Longrightarrow> \<exists>a. committed H S a (game w)"
proof (induction rule: reachable.induct)
  case (created tk lam name now rnd1 rnd2 d)
  show ?case using new_world_committed [of H S tk lam name now rnd1 rnd2 d] by blast
next
  case (stepped w i)
  then obtain a where "committed H S a (game w)" by blast
  from step_committed [OF this, of i] show ?case by blast
next
  case (ledger_changed w d)
  then show ?case by simp
qed

lemma reachable_crashPoint:
  "reachable H S w \<Longrightarrow>
     crashPoint (game w) = getCrashPoint H (serverSeed (game w)) (nonce (game w))"
  using reachable_committed [of H S w] by (auto simp: committed_def)

lemma detected_crash_event:
  assumes "interval w = Some loopStart"
    and "num_ge (growth (lambda (game w)) (real_of_int (now - loopStart) / 1000))
           (crashPoint (game w))"
  shows "snd (step H S (IntervalFires now) w) =
     [Crash (crashPoint (game w)) (serverSeed (game w))]"
  using assms by (simp add: interval_tick_def crashGame_def Let_def)

text \<open>
  C4. The crash point that \<open>getCrashPoint\<close> computes from a seed and a nonce is a
  function of the two: the keyed hash, with the seed as key, of the seed, a colon
  and the decimal numeral of the nonce, and for a digest of 64 hexadecimal
  characters the value of the specification: 1.00 when the number of the first 13
  characters is divisible by 13, and otherwise
  \<open>max 1.00 (floor (100 * 0.99 / (1 - h / 2^32)) / 100)\<close> with \<open>h\<close> the number of the
  first 8 characters. In the stream of events of a room, the crash point of every
  crash event is the one recomputed from the seed that the event discloses and
  the nonce of the last round-start event; and the callback that finds the
  multiplier at or above the crash point broadcasts the crash event with that
  crash point and the seed.
\<close>

theorem crash_point_is_recomputable:
  "(hex_digest (H (seed @ '':'' @ string_of_nat n) seed) \<longrightarrow>
      getCrashPoint H seed n = Some (spec_crashPoint (H (seed @ '':'' @ string_of_nat n) seed)))
   \<and> decimal_value (string_of_nat n) = n
   \<and> list_all (\<lambda>c. c \<in> set ''0123456789'') (string_of_nat n)
   \<and> string_of_nat n \<noteq> []
   \<and> (hd (string_of_nat n) = CHR ''0'' \<longrightarrow> n = 0)
   \<and> crashes_recomputable H None
       (snd (new_world H S tk lam name now rnd1 rnd2 d) @
        snd (run H S ins (fst (new_world H S tk lam name now rnd1 rnd2 d))))
   \<and> (reachable H S w \<and> interval w = Some loopStart \<and>
       num_ge (growth (lambda (game w)) (real_of_int (now' - loopStart) / 1000))
         (crashPoint (game w)) \<longrightarrow>
       snd (step H S (IntervalFires now') w) =
         [Crash (getCrashPoint H (serverSeed (game w)) (nonce (game w))) (serverSeed (game w))])"
proof (intro conjI)
  show "hex_digest (H (seed @ '':'' @ string_of_nat n) seed) \<longrightarrow>
      getCrashPoint H seed n = Some (spec_crashPoint (H (seed @ '':'' @ string_of_nat n) seed))"
    using getCrashPoint_spec by blast
next
  show "decimal_value (string_of_nat n) = n" by (rule decimal_value_string_of_nat)
next
  show "list_all (\<lambda>c. c \<in> set ''0123456789'') (string_of_nat n)" by (rule string_of_nat_digits)
next
  show "string_of_nat n \<noteq> []" by (rule string_of_nat_nonempty)
next
  show "hd (string_of_nat n) = CHR ''0'' \<longrightarrow> n = 0" using string_of_nat_leading by blast
next
  obtain a where a: "last_start None (snd (new_world H S tk lam name now rnd1 rnd2 d)) = a"
    "crashes_recomputable H None (snd (new_world H S tk lam name now rnd1 rnd2 d))"
    "committed H S a (game (fst (new_world H S tk lam name now rnd1 rnd2 d)))"
    using new_world_committed [of H S tk lam name now rnd1 rnd2 d] by blast
  from run_committed [OF a(3), of ins] a(1,2)
  show "crashes_recomputable H None
     (snd (new_world H S tk lam name now rnd1 rnd2 d) @
      snd (run H S ins (fst (new_world H S tk lam name now rnd1 rnd2 d))))"
    by (simp add: crashes_recomputable_append)
next
  show "reachable H S w \<and> interval w = Some loopStart \<and>
       num_ge (growth (lambda (game w)) (real_of_int (now' - loopStart) / 1000))
         (crashPoint (game w)) \<longrightarrow>
       snd (step H S (IntervalFires now') w) =
         [Crash (getCrashPoint H (serverSeed (game w)) (nonce (game w))) (serverSeed (game w))]"
  proof
    assume a: "reachable H S w \<and> interval w = Some loopStart \<and>
       num_ge (growth (lambda (game w)) (real_of_int (now' - loopStart) / 1000))
         (crashPoint (game w))"
    then have "reachable H S w" by simp
    then have "crashPoint (game w) = getCrashPoint H (serverSeed (game w)) (nonce (game w))"
      by (rule reachable_crashPoint)
    moreover from a have "snd (step H S (IntervalFires now') w) =
        [Crash (crashPoint (game w)) (serverSeed (game w))]"
      by (intro detected_crash_event) blast+
    ultimately show "snd (step H S (IntervalFires now') w) =
         [Crash (getCrashPoint H (serverSeed (game w)) (nonce (game w))) (serverSeed (game w))]"
      by simp
  qed
qed

lemma hex_digest_demo: "hex_digest (H_demo m k)"
  by (simp add: hex_digest_def H_demo_def hex_digits_def)

lemma string_of_nat_1234: "string_of_nat 1234 = ''1234''"
  by (simp add: string_of_nat.simps digit_char_def)

text \<open>
  In the example the keyed hash gives the digest of the crash point 1.01 for the
  message \<open>demo_seed @ '':2''\<close> with the key \<open>demo_seed\<close> only; the stream of the
  room is its round-start event, the answers to the bet, and the crash event.
\<close>

theorem crash_point_is_recomputable_witness:
  "hex_digest (H_demo (demo_seed @ '':'' @ string_of_nat 2) demo_seed)
   \<and> demo_seed @ '':'' @ string_of_nat 2 = demo_seed @ '':2''
   \<and> string_of_nat 1234 = ''1234'' \<and> decimal_value ''1234'' = 1234
   \<and> getCrashPoint H_demo demo_seed 2 = Some 1.01
   \<and> spec_crashPoint (H_demo (demo_seed @ '':2'') demo_seed) = 1.01
   \<and> snd (new_world H_demo S_demo ''$ETHRX'' 1 ''ETHRX'' 0 rnd_demo rnd_demo demo_ledger) @
     snd (run H_demo S_demo [PlaceBet 1 100, RunGameLoopFires 6000, IntervalFires 6050]
          (fst (new_world H_demo S_demo ''$ETHRX'' 1 ''ETHRX'' 0 rnd_demo rnd_demo demo_ledger))) =
       [Game_start ''$ETHRX'' 2 (S_demo demo_seed) 6000, Bet_success 100, Balance_update 900,
        Crash (Some 1.01) demo_seed]
   \<and> crashes_recomputable H_demo None
       [Game_start ''$ETHRX'' 2 (S_demo demo_seed) 6000, Bet_success 100, Balance_update 900,
        Crash (Some 1.01) demo_seed]
   \<and> reachable H_demo S_demo demo_running \<and> interval demo_running = Some 6000
   \<and> num_ge (growth (lambda (game demo_running)) (real_of_int (6050 - 6000) / 1000))
       (crashPoint (game demo_running))
   \<and> snd (step H_demo S_demo (IntervalFires 6050) demo_running) = [Crash (Some 1.01) demo_seed]"
proof -
  note inst = crash_point_is_recomputable [of H_demo demo_seed 2 S_demo "''$ETHRX''" 1 "''ETHRX''" 0
      rnd_demo rnd_demo demo_ledger "[PlaceBet 1 100, RunGameLoopFires 6000, IntervalFires 6050]"
      demo_running 6000 6050]
      crash_point_is_recomputable [of H_demo demo_seed 1234 S_demo "''$ETHRX''" 1 "''ETHRX''" 0
      rnd_demo rnd_demo demo_ledger "[]" demo_running 6000 6050]
  have e: "snd (new_world H_demo S_demo ''$ETHRX'' 1 ''ETHRX'' 0 rnd_demo rnd_demo demo_ledger) @
   snd (run H_demo S_demo [PlaceBet 1 100, RunGameLoopFires 6000, IntervalFires 6050]
        (fst (new_world H_demo S_demo ''$ETHRX'' 1 ''ETHRX'' 0 rnd_demo rnd_demo demo_ledger))) =
     [Game_start ''$ETHRX'' 2 (S_demo demo_seed) 6000, Bet_success 100, Balance_update 900,
      Crash (Some 1.01) demo_seed]"
    by (simp only: new_world_demo demo_round fst_conv snd_conv) simp
  have h: "hex_digest (H_demo (demo_seed @ '':'' @ string_of_nat 2) demo_seed)"
    by (rule hex_digest_demo)
  have m: "demo_seed @ '':'' @ string_of_nat 2 = demo_seed @ '':2''"
    by (simp add: string_of_nat_2)
  have g: "getCrashPoint H_demo demo_seed 2 = Some 1.01"
    by (rule getCrashPoint_demo)
  have d: "decimal_value ''1234'' = 1234"
    using inst(2) unfolding string_of_nat_1234 by blast
  from inst(1) h
  have t: "getCrashPoint H_demo demo_seed 2 =
      Some (spec_crashPoint (H_demo (demo_seed @ '':'' @ string_of_nat 2) demo_seed))"
    "crashes_recomputable H_demo None
       [Game_start ''$ETHRX'' 2 (S_demo demo_seed) 6000, Bet_success 100, Balance_update 900,
        Crash (Some 1.01) demo_seed]"
    unfolding e by blast+
  from t(1) g have s: "spec_crashPoint (H_demo (demo_seed @ '':2'') demo_seed) = 1.01"
    unfolding m by simp
  have r: "reachable H_demo S_demo demo_running \<and> interval demo_running = Some 6000
   \<and> num_ge (growth (lambda (game demo_running)) (real_of_int (6050 - 6000) / 1000))
       (crashPoint (game demo_running))"
  proof (intro conjI)
    show "reachable H_demo S_demo demo_running" by (rule reachable_demo)
    show "interval demo_running = Some 6000" by (simp add: demo_running_eq)
    show "num_ge (growth (lambda (game demo_running)) (real_of_int (6050 - 6000) / 1000))
       (crashPoint (game demo_running))"
      unfolding growth_demo_running by (simp add: demo_running_eq demo_room_simps num_ge_def)
  qed
  from inst(1) r
  have k0: "snd (step H_demo S_demo (IntervalFires 6050) demo_running) =
      [Crash (getCrashPoint H_demo (serverSeed (game demo_running)) (nonce (game demo_running)))
         (serverSeed (game demo_running))]"
    by blast
  have k: "snd (step H_demo S_demo (IntervalFires 6050) demo_running) =
      [Crash (Some 1.01) demo_seed]"
    unfolding k0 by (simp add: demo_running_eq demo_room_simps getCrashPoint_demo)
  from h m string_of_nat_1234 d g s e t(2) r k show ?thesis by blast
qed

section \<open>The growth of the multiplier\<close>

lemma toFixed2_round2: "0 \<le> x \<Longrightarrow> x < 10 ^ 21 \<Longrightarrow> toFixed2 x = round2 x"
  by (simp add: toFixed2_def round2_def round_def)

lemma round2_nearest: "\<bar>round2 x - x\<bar> \<le> 1 / 200"
proof -
  have "\<bar>real_of_int (round (x * 100)) - x * 100\<bar> \<le> 1 / 2"
    by (rule of_int_round_abs_le)
  then have "\<bar>(real_of_int (round (x * 100)) - x * 100) / 100\<bar> \<le> (1 / 2) / 100"
    by (simp del: of_int_round_abs_le)
  then show ?thesis
    by (simp add: round2_def diff_divide_distrib)
qed

lemma toFixed2_mono:
  assumes "0 \<le> x" and "x \<le> y"
  shows "toFixed2 x \<le> toFixed2 y"
proof (cases "y < 10 ^ 21")
  case True
  with assms have "\<lfloor>x * 100 + 1 / 2\<rfloor> \<le> \<lfloor>y * 100 + 1 / 2\<rfloor>"
    by (intro floor_mono) simp
  then have "real_of_int \<lfloor>x * 100 + 1 / 2\<rfloor> / 100 \<le> real_of_int \<lfloor>y * 100 + 1 / 2\<rfloor> / 100"
    by simp
  with assms True show ?thesis by (simp add: toFixed2_def)
next
  case big: False
  show ?thesis
  proof (cases "x < 10 ^ 21")
    case True
    then have "x * 100 + 1 / 2 < real_of_int (10 ^ 23 + 1)" by simp
    then have "\<lfloor>x * 100 + 1 / 2\<rfloor> < 10 ^ 23 + 1" by (simp only: floor_less_iff)
    then have "\<lfloor>x * 100 + 1 / 2\<rfloor> \<le> 10 ^ 23" by simp
    then have "real_of_int \<lfloor>x * 100 + 1 / 2\<rfloor> \<le> real_of_int (10 ^ 23)"
      by (simp only: of_int_le_iff)
    then have fx: "real_of_int \<lfloor>x * 100 + 1 / 2\<rfloor> / 100 \<le> 10 ^ 21" by simp
    have tx: "toFixed2 x = real_of_int \<lfloor>x * 100 + 1 / 2\<rfloor> / 100"
      using assms True by (simp add: toFixed2_def)
    have ty: "toFixed2 y = y"
      using assms big by (simp add: toFixed2_def)
    from big have "10 ^ 21 \<le> y" by simp
    with fx show ?thesis unfolding tx ty by linarith
  next
    case False
    with assms big show ?thesis by (simp add: toFixed2_def)
  qed
qed

lemma growth_antimono:
  assumes "0 < lam1" and "lam1 \<le> lam2" and "0 \<le> t"
  shows "growth lam2 t \<le> growth lam1 t"
proof -
  from assms have "2 / lam2 \<le> 2 / lam1"
    by (simp add: frac_le)
  then have "0.065 * (2 / lam2) \<le> 0.065 * (2 / lam1)" by simp
  from this assms(3) have "0.065 * (2 / lam2) * t \<le> 0.065 * (2 / lam1) * t"
    by (rule mult_right_mono)
  then have "0.065 * (2 / lam2) * t * 2.5 \<le> 0.065 * (2 / lam1) * t * 2.5" by simp
  then have "exp (0.065 * (2 / lam2) * t * 2.5) \<le> exp (0.065 * (2 / lam1) * t * 2.5)"
    by (simp only: exp_le_cancel_iff)
  then have "toFixed2 (exp (0.065 * (2 / lam2) * t * 2.5))
      \<le> toFixed2 (exp (0.065 * (2 / lam1) * t * 2.5))"
    by (intro toFixed2_mono) simp_all
  then show ?thesis by (simp add: growth_eq max.coboundedI2)
qed

text \<open>
  C7 (as amended). For every elapsed time \<open>t\<close> and volatility \<open>lam\<close>, the sampled
  multiplier is \<open>max 1.00 (round2 (e^(k * t * 2.5)))\<close> with \<open>k = 0.065 * (2.0 / lam)\<close>,
  where \<open>round2\<close> rounds to the nearest multiple of 1/100, as \<open>toFixed(2)\<close> does
  (for values below \<open>10^21\<close>); it does not cut the decimals off. Hence a higher
  volatility gives, at every time \<open>t\<close> from 0 on, a multiplier that is not larger.
\<close>

theorem growth_rounds_to_nearest:
  "(exp (0.065 * (2.0 / lam) * t * 2.5) < 10 ^ 21 \<longrightarrow>
      growth lam t = max 1.00 (round2 (exp (0.065 * (2.0 / lam) * t * 2.5))))
   \<and> \<bar>round2 x - x\<bar> \<le> 1 / 200
   \<and> (0 < lam1 \<and> lam1 \<le> lam2 \<and> 0 \<le> t \<longrightarrow> growth lam2 t \<le> growth lam1 t)"
proof (intro conjI impI)
  assume "exp (0.065 * (2.0 / lam) * t * 2.5) < 10 ^ 21"
  then have "toFixed2 (exp (0.065 * (2.0 / lam) * t * 2.5))
      = round2 (exp (0.065 * (2.0 / lam) * t * 2.5))"
    by (intro toFixed2_round2) simp_all
  then show "growth lam t = max 1.00 (round2 (exp (0.065 * (2.0 / lam) * t * 2.5)))"
    by (simp add: growth_eq)
next
  show "\<bar>round2 x - x\<bar> \<le> 1 / 200" by (rule round2_nearest)
next
  assume "0 < lam1 \<and> lam1 \<le> lam2 \<and> 0 \<le> t"
  then show "growth lam2 t \<le> growth lam1 t" by (simp add: growth_antimono)
qed

theorem growth_rounds_to_nearest_witness:
  "exp (0.065 * (2.0 / 1) * (1 / 20) * 2.5) < (10::real) ^ 21
   \<and> growth 1 (1 / 20) = max 1.00 (round2 (exp (0.065 * (2.0 / 1) * (1 / 20) * 2.5)))
   \<and> growth 1 (1 / 20) = 1.02
   \<and> (0::real) < 1 \<and> (1::real) \<le> 2.5 \<and> (0::real) \<le> 1 / 20
   \<and> growth 2.5 (1 / 20) \<le> growth 1 (1 / 20)"
proof -
  have a: "exp (0.065 * (2.0 / 1) * (1 / 20) * 2.5) < (10::real) ^ 21"
    using exp_13_800(2) by simp
  have b: "(0::real) < 1 \<and> (1::real) \<le> 2.5 \<and> (0::real) \<le> 1 / 20" by simp
  have c: "growth 1 (1 / 20) = 1.02"
    by (simp add: growth_eq toFixed2_exp_13_800)
  from growth_rounds_to_nearest [of 1 "1 / 20" 0 1 "2.5"] a b
  have "growth 1 (1 / 20) = max 1.00 (round2 (exp (0.065 * (2.0 / 1) * (1 / 20) * 2.5)))"
    "growth 2.5 (1 / 20) \<le> growth 1 (1 / 20)"
    by blast+
  with a b c show ?thesis by blast
qed

text \<open>
  C7 as stated fails: in the room of volatility 1.0 the sample at 50 ms is 1.02,
  the rounding of \<open>e^0.01625 = 1.0163...\<close>, and cutting the decimals off gives 1.01.
\<close>

theorem growth_does_not_truncate:
  "growth 1 (1 / 20) = 1.02
   \<and> max 1.00 (truncate2 (exp (0.065 * (2.0 / 1) * (1 / 20) * 2.5))) = 1.01
   \<and> growth 1 (1 / 20) \<noteq> max 1.00 (truncate2 (exp (0.065 * (2.0 / 1) * (1 / 20) * 2.5)))"
proof -
  have a: "growth 1 (1 / 20) = 1.02"
    by (simp add: growth_eq toFixed2_exp_13_800)
  have b: "max 1.00 (truncate2 (exp (0.065 * (2.0 / 1) * (1 / 20) * 2.5))) = 1.01"
    by (simp add: truncate2_exp_13_800)
  have "growth 1 (1 / 20) \<noteq> max 1.00 (truncate2 (exp (0.065 * (2.0 / 1) * (1 / 20) * 2.5)))"
    unfolding a b by simp
  with a b show ?thesis by blast
qed

section \<open>The timers and the answers of a room that the server runs\<close>

lemma step_timers_ok:
  assumes "timers_ok w"
  shows "timers_ok (fst (step H S i w))"
proof (cases i)
  case (RunGameLoopFires now)
  then show ?thesis
    using assms by (auto simp: timers_ok_def split: if_splits)
next
  case (IntervalFires now)
  then show ?thesis
    using assms
    by (auto simp: timers_ok_def interval_tick_def crashGame_def Let_def
        split: option.splits if_splits)
next
  case (StartGameFires now rnd)
  then show ?thesis
    using assms
    by (auto simp: timers_ok_def startGame_def Let_def split: if_splits)
next
  case (PlaceBet uid amt)
  then show ?thesis
    using assms by (simp add: timers_ok_def place_bet_round)
next
  case (CashOut uid)
  then show ?thesis
    using assms by (simp add: timers_ok_def cash_out_round)
qed

lemma reachable_timers_ok: "reachable H S w \<Longrightarrow> timers_ok w"
proof (induction rule: reachable.induct)
  case (created tk lam name now rnd1 rnd2 d)
  show ?case
    by (simp add: timers_ok_def new_world_def new_GameRoom_def startGame_def rotateSeed_def
        Let_def)
next
  case (stepped w i)
  then show ?case by (simp add: step_timers_ok)
next
  case (ledger_changed w d)
  then show ?case by (simp add: timers_ok_def)
qed

text \<open>
  In a room that the server runs, the phase tells which timer is pending, and the
  flag \<open>isRunning\<close> is set in the betting window and in the running phase.
\<close>

lemma reachable_phase:
  assumes "reachable H S w"
  shows "phase_of w = BETTING \<longleftrightarrow> isRunning (game w) \<and> loopTimeout w"
    and "phase_of w = RUNNING \<longleftrightarrow> isRunning (game w) \<and> interval w \<noteq> None"
    and "phase_of w = CRASHED \<longleftrightarrow> restartTimeout w"
  using reachable_timers_ok [OF assms]
  by (auto simp: phase_of_def timers_ok_def split: if_splits)

lemma getCrashPoint_ge_1: "getCrashPoint H seed n = Some c \<Longrightarrow> 1 \<le> c"
  by (auto simp: getCrashPoint_def Let_def split: if_splits option.splits)

lemma step_below_crash:
  assumes "isRunning (game w) \<longrightarrow> \<not> num_gt (multiplier (game w)) (crashPoint (game w))"
  shows "isRunning (game (fst (step H S i w))) \<longrightarrow>
     \<not> num_gt (multiplier (game (fst (step H S i w)))) (crashPoint (game (fst (step H S i w))))"
proof (cases i)
  case (RunGameLoopFires now)
  then show ?thesis using assms by simp
next
  case (IntervalFires now)
  then show ?thesis
    using assms
    by (auto simp: interval_tick_def crashGame_def Let_def num_ge_def num_gt_def
        split: option.splits)
next
  case (StartGameFires now rnd)
  then show ?thesis
    using assms
    by (auto simp: startGame_def Let_def num_gt_def dest: getCrashPoint_ge_1
        split: option.splits)
next
  case (PlaceBet uid amt)
  then show ?thesis using assms by (simp add: place_bet_round)
next
  case (CashOut uid)
  then show ?thesis using assms by (simp add: cash_out_round)
qed

lemma reachable_below_crash:
  "reachable H S w \<Longrightarrow>
     isRunning (game w) \<longrightarrow> \<not> num_gt (multiplier (game w)) (crashPoint (game w))"
proof (induction rule: reachable.induct)
  case (created tk lam name now rnd1 rnd2 d)
  show ?case
    by (auto simp: new_world_def new_GameRoom_def startGame_def rotateSeed_def Let_def
        num_gt_def dest: getCrashPoint_ge_1 split: option.splits)
next
  case (stepped w i)
  from stepped.IH show ?case by (rule step_below_crash)
next
  case (ledger_changed w d)
  then show ?case by simp
qed

text \<open>
  Hence, with the handlers run one after the other, no cash-out is ever answered
  with ``Crashed!'': a room that is running is not above its crash point.
\<close>

lemma reachable_never_too_late:
  assumes "reachable H S w"
  shows "Error ''Crashed!'' \<notin> set (snd (step H S (CashOut uid) w))"
  using reachable_below_crash [OF assms]
  by (auto simp: cash_out_crashed_answer)

text \<open>
  A command for a name that the table of rooms does not answer to is ignored. A
  bet on a key that the table inherits debits the user and records nothing, and
  a cash-out on such a key is answered with ``Game not running''.
\<close>

lemma unknown_room_ignored:
  "rooms_lookup rooms room = Undefined \<Longrightarrow>
     on_place_bet rooms d uid room amt = (rooms, d, []) \<and>
     on_cash_out rooms d uid room = (rooms, d, [])"
  by (simp add: on_place_bet_def on_cash_out_def)

lemma rooms_lookup_constructor: "rooms_lookup demo_rooms ''constructor'' = Inherited"
  by (simp add: rooms_lookup_def demo_rooms_def inherited_keys_def)

lemma inherited_key_bet_debits:
  "on_place_bet demo_rooms demo_ledger 1 ''constructor'' 100 =
     (demo_rooms,
      \<lparr>users = [1 \<mapsto> 900],
       transactions = [(1, ''bet'', 100, ''room:constructor:nonce:undefined'')]\<rparr>,
      [Bet_error type_error_set])"
  by (simp add: on_place_bet_def rooms_lookup_constructor updateUserBalance_def num_add_def
      demo_ledger_def)

lemma inherited_key_cash_out:
  "on_cash_out demo_rooms d uid ''constructor'' = (demo_rooms, d, [Error ''Game not running''])"
  by (simp add: on_cash_out_def rooms_lookup_constructor)

end
